theory Spec2Isabelle
  imports Complex_Main
begin

section \<open>Track counting: shallow embedding of tools/trackCounting.py\<close>

text \<open>
  The Python functions are embedded as HOL functions of the same names. Floating-point
  numbers are read as reals, Python's unbounded counters as naturals. Every exception
  and every \<open>sys.exit\<close> of the source is a value of the type \<open>error\<close>; a function that
  can raise returns \<open>error + 'a\<close> with \<open>Inl\<close> for the failure.
\<close>

subsection \<open>Errors and printed lines\<close>

text \<open>
  The lines the source prints before \<open>sys.exit(1)\<close> in drawROCfromEffVsCutCurves,
  with the formatted numbers kept as numbers.
\<close>

datatype line =
    SameNumberOfEntries
  | EntriesSignal nat
  | EntriesBackground nat

datatype error =
    ZeroDivisionError
  | IndexError
  | FileDoesNotExist
  | SystemExit "line list" int

subsection \<open>Graphs and histograms of the ROOT library\<close>

text \<open>
  A \<open>TGraph\<close> is its sequence of points. The constructor \<open>TGraph(n, x, y)\<close> copies the
  first \<open>n\<close> entries of the two arrays.
\<close>

type_synonym TGraph = "(real \<times> real) list"

definition TGraph :: "nat \<Rightarrow> real list \<Rightarrow> real list \<Rightarrow> TGraph" where
  "TGraph n x y = zip (take n x) (take n y)"

definition GetN :: "TGraph \<Rightarrow> nat" where
  "GetN g = length g"

definition GetPoint :: "TGraph \<Rightarrow> nat \<Rightarrow> real \<times> real" where
  "GetPoint g i = g ! i"

text \<open>
  A one-dimensional histogram with bins of equal width on \<open>[fXmin, fXmax)\<close>. Bins are
  numbered from 1 to \<open>GetNbinsX\<close>; bin 0 is the underflow and every larger number the
  overflow. ROOT gives every histogram at least one bin, so \<open>fContents\<close> is not empty.
\<close>

record TH1 =
  fXmin :: real
  fXmax :: real
  fContents :: "real list"
  fUnderflow :: real
  fOverflow :: real

definition GetNbinsX :: "TH1 \<Rightarrow> nat" where
  "GetNbinsX h = length (fContents h)"

definition GetBinContent :: "TH1 \<Rightarrow> nat \<Rightarrow> real" where
  "GetBinContent h i =
     (if i = 0 then fUnderflow h
      else if i \<le> GetNbinsX h then fContents h ! (i - 1)
      else fOverflow h)"

definition GetBinLowEdge :: "TH1 \<Rightarrow> nat \<Rightarrow> real" where
  "GetBinLowEdge h i =
     fXmin h + (real i - 1) * ((fXmax h - fXmin h) / real (GetNbinsX h))"

definition Integral :: "TH1 \<Rightarrow> real" where
  "Integral h = sum_list (fContents h)"

subsection \<open>drawEffVsCutCurve\<close>

text \<open>
  The body of \<open>for i in xrange(2, myTH1.GetNbinsX())\<close>, on the three variables it
  updates: \<open>discrV\<close>, \<open>integral\<close> and \<open>effV\<close>.
\<close>

fun effLoop :: "TH1 \<Rightarrow> nat list \<Rightarrow> real list \<times> real \<times> real list
    \<Rightarrow> real list \<times> real \<times> real list" where
  "effLoop myTH1 [] s = s"
| "effLoop myTH1 (i # rest) (discrV, integral, effV) =
     (let discrV' = discrV @ [GetBinLowEdge myTH1 i];
          integral' = integral - GetBinContent myTH1 (i - 1);
          effV' = effV @ [integral']
      in effLoop myTH1 rest (discrV', integral', effV'))"

text \<open>
  The argument \<open>total\<close> (here \<open>totalN\<close>) is the counter \<open>cut["total"]\<close> of
  createDiscrHist, an integer counted up from 0, or the default 0; \<open>total is not 0\<close> is
  then \<open>total \<noteq> 0\<close>. The warning printed when \<open>total < integral\<close> changes no value and
  is left out. The list comprehension \<open>[x/integral for x in effV]\<close> divides at least
  once, so it raises exactly when the divisor is zero. The reals stand for the doubles of
  the source: where the exact divisor is zero, the doubles can hold a rounding residue
  and the source then divides by it.
\<close>

definition drawEffVsCutCurve :: "TH1 \<Rightarrow> nat \<Rightarrow> error + TGraph" where
  "drawEffVsCutCurve myTH1 totalN =
     (case effLoop myTH1 [2..<GetNbinsX myTH1]
             ([GetBinLowEdge myTH1 1], Integral myTH1, [Integral myTH1]) of
        (discrV, integral, effV) \<Rightarrow>
          (let integral' = (if totalN \<noteq> 0 then real totalN else integral)
           in if integral' = 0 then Inl ZeroDivisionError
              else Inr (TGraph (length discrV) discrV (map (\<lambda>x. x / integral') effV))))"

text \<open>
  The divisor of the final list comprehension: the value of the variable \<open>integral\<close>
  after the loop and after the block \<open>if total is not 0\<close>.
\<close>

definition effDivisor :: "TH1 \<Rightarrow> nat \<Rightarrow> real" where
  "effDivisor myTH1 totalN =
     (case effLoop myTH1 [2..<GetNbinsX myTH1]
             ([GetBinLowEdge myTH1 1], Integral myTH1, [Integral myTH1]) of
        (discrV, integral, effV) \<Rightarrow> (if totalN \<noteq> 0 then real totalN else integral))"

subsection \<open>drawROCfromEffVsCutCurves\<close>

definition drawROCfromEffVsCutCurves :: "TGraph \<Rightarrow> TGraph \<Rightarrow> error + TGraph" where
  "drawROCfromEffVsCutCurves sigGraph bkgGraph =
     (let nPoints = GetN sigGraph
      in if nPoints \<noteq> GetN bkgGraph
         then Inl (SystemExit
                [SameNumberOfEntries, EntriesSignal nPoints, EntriesBackground (GetN bkgGraph)] 1)
         else (let sigEff = map (\<lambda>i. snd (GetPoint sigGraph i)) [0..<nPoints];
                   bkgEff = map (\<lambda>i. snd (GetPoint bkgGraph i)) [0..<nPoints]
               in Inr (TGraph nPoints sigEff bkgEff)))"

subsection \<open>Sequencing of steps that can fail\<close>

definition bindE :: "error + 'a \<Rightarrow> ('a \<Rightarrow> error + 'b) \<Rightarrow> error + 'b" where
  "bindE m f = (case m of Inl e \<Rightarrow> Inl e | Inr x \<Rightarrow> f x)"

text \<open>A \<open>for\<close> loop over a list whose body can raise: the first failure ends the loop.\<close>

fun foldE :: "('a \<Rightarrow> 's \<Rightarrow> error + 's) \<Rightarrow> 'a list \<Rightarrow> 's \<Rightarrow> error + 's" where
  "foldE f [] s = Inr s"
| "foldE f (x # xs) s = bindE (f x s) (foldE f xs)"

subsection \<open>The input tree\<close>

text \<open>
  One entry of the input chain. The branches \<open>Jet_*\<close> are arrays of \<open>nJet\<close> values, kept
  here as one record per jet; \<open>Jet_nFirstTrack\<close> and \<open>Jet_nLastTrack\<close> index the track
  arrays of the entry and are not negative.
\<close>

record jet =
  Jet_genpt :: real
  Jet_pt :: real
  Jet_ntracks :: real
  Jet_eta :: real
  Jet_phi :: real
  Jet_flavour :: int
  Jet_nFirstTrack :: nat
  Jet_nLastTrack :: nat

record event =
  Jets :: "jet list"
  Track_IPsig :: "real list"

subsection \<open>The two track selectors\<close>

text \<open>
  The formula engine and the classifier runtime are collaborators outside the
  repository. A compiled \<open>TTreeFormula\<close> is the function that \<open>EvalInstance\<close> computes
  from the current entry and the instance number; a booked \<open>TMVA.Reader\<close> is the
  function from the values of its variable slots, in their order, to the score.
  Every call to a collaborator is recorded, in order.
\<close>

datatype call =
    CutEvalInstance nat
  | VarEvalInstance string nat
  | EvaluateMVA

record trackCutSelector =
  cut_formula :: "event \<Rightarrow> nat \<Rightarrow> real"

record trackMVASelector =
  cuts :: "real list"
  trackVars :: "string list"
  trackVarFormulas :: "string \<Rightarrow> event \<Rightarrow> nat \<Rightarrow> real"
  reader :: "real list \<Rightarrow> real"

definition trackCutSelector_evaluate ::
    "trackCutSelector \<Rightarrow> event \<Rightarrow> nat \<Rightarrow> real \<times> call list" where
  "trackCutSelector_evaluate self tree trackN =
     (cut_formula self tree trackN, [CutEvalInstance trackN])"

text \<open>\<open>sync\<close> fills the slots of the reader, one formula evaluation per variable.\<close>

definition trackMVASelector_sync ::
    "trackMVASelector \<Rightarrow> event \<Rightarrow> nat \<Rightarrow> real list \<times> call list" where
  "trackMVASelector_sync self tree trackN =
     (map (\<lambda>var. trackVarFormulas self var tree trackN) (trackVars self),
      map (\<lambda>var. VarEvalInstance var trackN) (trackVars self))"

definition trackMVASelector_getValue ::
    "trackMVASelector \<Rightarrow> event \<Rightarrow> nat \<Rightarrow> real \<times> call list" where
  "trackMVASelector_getValue self tree trackN =
     (case trackMVASelector_sync self tree trackN of
        (slots, calls) \<Rightarrow> (reader self slots, calls @ [EvaluateMVA]))"

definition trackMVASelector_evaluate ::
    "trackMVASelector \<Rightarrow> event \<Rightarrow> nat \<Rightarrow> bool list \<times> call list" where
  "trackMVASelector_evaluate self tree trackN =
     (case trackMVASelector_getValue self tree trackN of
        (mvaValue, calls) \<Rightarrow> (map (\<lambda>cut. mvaValue > cut) (cuts self), calls))"

subsection \<open>createJetTreeTC: selection of one track\<close>

definition any :: "bool list \<Rightarrow> bool" where
  "any xs = list_ex (\<lambda>x. x) xs"

text \<open>
  Lines 147 to 156, for one track. The result \<open>None\<close> is the \<open>continue\<close> of the track
  loop. \<open>x and cutResult\<close> is kept as its truth value: \<open>cutResult\<close> is a number and
  counts as true when it is not zero.
\<close>

definition selectTrack :: "trackCutSelector option \<Rightarrow> trackMVASelector option \<Rightarrow> nat
    \<Rightarrow> event \<Rightarrow> nat \<Rightarrow> bool list option \<times> call list" where
  "selectTrack myTrackCutSel myTrackMVASel nCuts tree track =
     (let keepTrack = replicate nCuts True;
          (keepTrack1, calls1) =
            (case myTrackCutSel of
               None \<Rightarrow> (keepTrack, [])
             | Some sel \<Rightarrow>
                 (case trackCutSelector_evaluate sel tree track of
                    (cutResult, calls) \<Rightarrow>
                      (map (\<lambda>x. x \<and> cutResult \<noteq> 0) keepTrack, calls)))
      in if \<not> any keepTrack1 then (None, calls1)
         else
           (let (keepTrack2, calls2) =
                  (case myTrackMVASel of
                     None \<Rightarrow> (keepTrack1, calls1)
                   | Some sel \<Rightarrow>
                       (case trackMVASelector_evaluate sel tree track of
                          (results, calls) \<Rightarrow>
                            (map (\<lambda>(x, y). x \<and> y) (zip keepTrack1 results), calls1 @ calls)))
            in if \<not> any keepTrack2 then (None, calls2)
               else (Some keepTrack2, calls2)))"

text \<open>The number of thresholds: 1 without a classifier, else the number of its cuts.\<close>

definition nCutsOf :: "trackMVASelector option \<Rightarrow> nat" where
  "nCutsOf myTrackMVASel =
     (case myTrackMVASel of None \<Rightarrow> 1 | Some sel \<Rightarrow> length (cuts sel))"

subsection \<open>createJetTreeTC: counters and output\<close>

record counters =
  nSelTracksB :: "nat list"
  nTotTracksB :: nat
  nSelTracksLight :: "nat list"
  nTotTracksLight :: nat
  nSelTracksC :: "nat list"
  nTotTracksC :: nat
  nSelTracksPU :: "nat list"
  nTotTracksPU :: nat

text \<open>The four \<open>std::vector<float>\<close> branches of the output tree.\<close>

record outVariables =
  Jet_nseltracks :: "real list"
  Jet_Ip :: "real list"
  TCHE :: "real list"
  TCHP :: "real list"

text \<open>One entry of the output tree: the copied jet variables and the four vectors.\<close>

record outEntry =
  copiedVariables :: "real list"
  vectors :: outVariables

record state = counters +
  outVariables :: outVariables
  outTree :: "outEntry list"

definition cleared :: outVariables where
  "cleared = \<lparr>Jet_nseltracks = [], Jet_Ip = [], TCHE = [], TCHP = []\<rparr>"

definition initState :: "nat \<Rightarrow> state" where
  "initState nCuts =
     \<lparr>nSelTracksB = replicate nCuts 0, nTotTracksB = 0,
      nSelTracksLight = replicate nCuts 0, nTotTracksLight = 0,
      nSelTracksC = replicate nCuts 0, nTotTracksC = 0,
      nSelTracksPU = replicate nCuts 0, nTotTracksPU = 0,
      outVariables = cleared, outTree = []\<rparr>"

subsection \<open>createJetTreeTC: the track loop\<close>

text \<open>Lines 137 to 145: the total counters, once for every track of the jet.\<close>

definition countTotal :: "jet \<Rightarrow> 'a counters_scheme \<Rightarrow> 'a counters_scheme" where
  "countTotal j c =
     (if Jet_genpt j \<ge> 8 then
        (let c1 = (if \<bar>Jet_flavour j\<bar> = 5
                   then c\<lparr>nTotTracksB := nTotTracksB c + 1\<rparr> else c);
             c2 = (if \<bar>Jet_flavour j\<bar> = 4
                   then c1\<lparr>nTotTracksC := nTotTracksC c1 + 1\<rparr> else c1)
         in (if \<bar>Jet_flavour j\<bar> < 4 \<or> Jet_flavour j = 21
             then c2\<lparr>nTotTracksLight := nTotTracksLight c2 + 1\<rparr> else c2))
      else c\<lparr>nTotTracksPU := nTotTracksPU c + 1\<rparr>)"

text \<open>Lines 160 to 168: the selected counters of threshold \<open>i\<close>.\<close>

definition countSel :: "jet \<Rightarrow> nat \<Rightarrow> 'a counters_scheme \<Rightarrow> 'a counters_scheme" where
  "countSel j i c =
     (if Jet_genpt j \<ge> 8 then
        (let c1 = (if \<bar>Jet_flavour j\<bar> = 5
                   then c\<lparr>nSelTracksB := (nSelTracksB c)[i := nSelTracksB c ! i + 1]\<rparr> else c);
             c2 = (if \<bar>Jet_flavour j\<bar> = 4
                   then c1\<lparr>nSelTracksC := (nSelTracksC c1)[i := nSelTracksC c1 ! i + 1]\<rparr> else c1)
         in (if \<bar>Jet_flavour j\<bar> < 4 \<or> Jet_flavour j = 21
             then c2\<lparr>nSelTracksLight := (nSelTracksLight c2)[i := nSelTracksLight c2 ! i + 1]\<rparr>
             else c2))
      else c\<lparr>nSelTracksPU := (nSelTracksPU c)[i := nSelTracksPU c ! i + 1]\<rparr>)"

type_synonym selTrack = "nat \<times> real"

text \<open>
  Lines 159 to 171, the body of \<open>for i in xrange(nCuts)\<close>. Reading \<open>Track_IPsig\<close>
  outside the array raises.
\<close>

definition selStep :: "event \<Rightarrow> jet \<Rightarrow> nat \<Rightarrow> bool list \<Rightarrow> nat
    \<Rightarrow> state \<times> selTrack list list \<Rightarrow> error + state \<times> selTrack list list" where
  "selStep tree j track keepTrack i s =
     (case s of (st, selTracks) \<Rightarrow>
        if keepTrack ! i then
          (let st1 = countSel j i st
           in if track < length (Track_IPsig tree)
              then Inr (st1, selTracks[i := selTracks ! i @ [(track, Track_IPsig tree ! track)]])
              else Inl IndexError)
        else Inr (st, selTracks))"

text \<open>Lines 136 to 171, the body of the loop over the tracks of a jet.\<close>

definition trackStep :: "trackCutSelector option \<Rightarrow> trackMVASelector option \<Rightarrow> nat
    \<Rightarrow> event \<Rightarrow> jet \<Rightarrow> nat
    \<Rightarrow> state \<times> selTrack list list \<Rightarrow> error + state \<times> selTrack list list" where
  "trackStep myTrackCutSel myTrackMVASel nCuts tree j track s =
     (case s of (st, selTracks) \<Rightarrow>
        (let st1 = countTotal j st
         in case fst (selectTrack myTrackCutSel myTrackMVASel nCuts tree track) of
              None \<Rightarrow> Inr (st1, selTracks)
            | Some keepTrack \<Rightarrow>
                foldE (selStep tree j track keepTrack) [0..<nCuts] (st1, selTracks)))"

subsection \<open>createJetTreeTC: the output of one jet\<close>

text \<open>
  \<open>sorted(selTracks[i], reverse = True, key = lambda track: track[1])\<close>: a stable sort by
  decreasing second component.
\<close>

definition sorted_reverse :: "selTrack list \<Rightarrow> selTrack list" where
  "sorted_reverse tracks = sort_key (\<lambda>track. - snd track) tracks"

text \<open>
  The assignment \<open>v[i] = x\<close> to a \<open>std::vector\<close>, through its unchecked \<open>operator[]\<close>. It
  raises nothing and never changes the size of the vector: at an index \<open>i \<ge> v.size()\<close> the
  write falls outside the elements, which stay as they are.
\<close>

definition vector_setitem :: "real list \<Rightarrow> nat \<Rightarrow> real \<Rightarrow> real list" where
  "vector_setitem v i x = v[i := x]"

text \<open>
  The four \<open>push_back\<close> of lines 181 and 187 to 189. The caller has checked that
  \<open>sel\<close> is not empty.
\<close>

definition pushEntries :: "selTrack list \<Rightarrow> outVariables \<Rightarrow> outVariables" where
  "pushEntries sel out =
     out\<lparr>Jet_nseltracks := Jet_nseltracks out @ [real (length sel)],
         Jet_Ip := Jet_Ip out @ [snd (sel ! 0)],
         TCHE := TCHE out @ [- (10 ^ 10)],
         TCHP := TCHP out @ [- (10 ^ 10)]\<rparr>"

text \<open>Lines 190 and 191: \<open>outVariables["TCHE"][i] = selTracks[i][1][1]\<close>.\<close>

definition assignTCHE :: "nat \<Rightarrow> selTrack list \<Rightarrow> outVariables \<Rightarrow> outVariables" where
  "assignTCHE i sel out =
     (if length sel > 1
      then out\<lparr>TCHE := vector_setitem (TCHE out) i (snd (sel ! 1))\<rparr>
      else out)"

text \<open>Lines 192 and 193: \<open>outVariables["TCHP"][i] = selTracks[i][2][1]\<close>.\<close>

definition assignTCHP :: "nat \<Rightarrow> selTrack list \<Rightarrow> outVariables \<Rightarrow> outVariables" where
  "assignTCHP i sel out =
     (if length sel > 2
      then out\<lparr>TCHP := vector_setitem (TCHP out) i (snd (sel ! 2))\<rparr>
      else out)"

text \<open>
  Lines 178 to 193, the body of \<open>for i in xrange(nCuts)\<close>, on the flag \<open>selectedJet\<close> and
  the state, whose four vectors it extends. The list that \<open>sorted\<close> returns is not used
  by the source: \<open>selTracks[i]\<close> stays in the order of the track loop.
\<close>

definition fillCut :: "selTrack list list \<Rightarrow> nat \<Rightarrow> bool \<times> state \<Rightarrow> bool \<times> state" where
  "fillCut selTracks i s =
     (case s of (selectedJet, st) \<Rightarrow>
        if length (selTracks ! i) \<noteq> 0 then
          (let unused = sorted_reverse (selTracks ! i);
               out4 = pushEntries (selTracks ! i) (outVariables st);
               out5 = assignTCHE i (selTracks ! i) out4;
               out6 = assignTCHP i (selTracks ! i) out5
           in (True, st\<lparr>outVariables := out6\<rparr>))
        else (selectedJet, st))"

definition copyJet :: "jet \<Rightarrow> real list" where
  "copyJet j = [Jet_genpt j, Jet_pt j, Jet_ntracks j, Jet_eta j, Jet_phi j,
                real_of_int (Jet_flavour j)]"

text \<open>
  Lines 196 to 200: the jet variables are copied and \<open>outTree.Fill()\<close> appends an entry
  with them and with the present content of the four vectors.
\<close>

definition Fill :: "jet \<Rightarrow> state \<Rightarrow> state" where
  "Fill j st =
     st\<lparr>outTree := outTree st @ [\<lparr>copiedVariables = copyJet j, vectors = outVariables st\<rparr>]\<rparr>"

text \<open>Lines 202 and 203: \<open>clear\<close> on each of the four vectors.\<close>

definition clear :: "state \<Rightarrow> state" where
  "clear st = st\<lparr>outVariables := cleared\<rparr>"

text \<open>Lines 176 to 203: the loop over the thresholds, \<open>Fill\<close> and \<open>clear\<close>.\<close>

definition fillJet :: "nat \<Rightarrow> jet \<Rightarrow> selTrack list list \<Rightarrow> state \<Rightarrow> state" where
  "fillJet nCuts j selTracks st =
     (case fold (fillCut selTracks) [0..<nCuts] (False, st) of
        (selectedJet, st1) \<Rightarrow> clear (if selectedJet then Fill j st1 else st1))"

subsection \<open>createJetTreeTC: the loops over jets and events\<close>

definition jetStep :: "trackCutSelector option \<Rightarrow> trackMVASelector option \<Rightarrow> nat
    \<Rightarrow> event \<Rightarrow> jet \<Rightarrow> state \<Rightarrow> error + state" where
  "jetStep myTrackCutSel myTrackMVASel nCuts tree j st =
     bindE (foldE (trackStep myTrackCutSel myTrackMVASel nCuts tree j)
              [Jet_nFirstTrack j..<Jet_nLastTrack j] (st, replicate nCuts []))
       (\<lambda>(st1, selTracks). Inr (fillJet nCuts j selTracks st1))"

definition eventStep :: "trackCutSelector option \<Rightarrow> trackMVASelector option \<Rightarrow> nat
    \<Rightarrow> event \<Rightarrow> state \<Rightarrow> error + state" where
  "eventStep myTrackCutSel myTrackMVASel nCuts tree st =
     foldE (jetStep myTrackCutSel myTrackMVASel nCuts tree) (Jets tree) st"

definition eventLoop :: "trackCutSelector option \<Rightarrow> trackMVASelector option \<Rightarrow> nat
    \<Rightarrow> event list \<Rightarrow> state \<Rightarrow> error + state" where
  "eventLoop myTrackCutSel myTrackMVASel nCuts entries st =
     foldE (eventStep myTrackCutSel myTrackMVASel nCuts) entries st"

subsection \<open>createJetTreeTC: the efficiency report and the whole function\<close>

text \<open>\<open>float(100*nSel)/nTot\<close>: dividing by the integer 0 raises.\<close>

definition efficiency :: "nat \<Rightarrow> nat \<Rightarrow> error + real" where
  "efficiency nSel nTot =
     (if nTot = 0 then Inl ZeroDivisionError else Inr (real (100 * nSel) / real nTot))"

text \<open>
  Lines 208 to 215, the body of the report loop: the four percentages of threshold
  \<open>i\<close>, computed and printed in the order B, C, light, PU.
\<close>

definition reportCut :: "'a counters_scheme \<Rightarrow> nat \<Rightarrow> real list list \<Rightarrow> error + real list list" where
  "reportCut c i printed =
     bindE (efficiency (nSelTracksB c ! i) (nTotTracksB c)) (\<lambda>effB.
     bindE (efficiency (nSelTracksC c ! i) (nTotTracksC c)) (\<lambda>effC.
     bindE (efficiency (nSelTracksLight c ! i) (nTotTracksLight c)) (\<lambda>effLight.
     bindE (efficiency (nSelTracksPU c ! i) (nTotTracksPU c)) (\<lambda>effPU.
     Inr (printed @ [[effB, effC, effLight, effPU]])))))"

definition report :: "nat \<Rightarrow> 'a counters_scheme \<Rightarrow> error + real list list" where
  "report nCuts c = foldE (reportCut c) [0..<nCuts] []"

text \<open>
  The pass over the chain, the report, and then \<open>outTree.Write()\<close>: the function
  returns the written entries and the printed percentages.
\<close>

definition runPass :: "trackCutSelector option \<Rightarrow> trackMVASelector option \<Rightarrow> nat
    \<Rightarrow> event list \<Rightarrow> error + outEntry list \<times> real list list" where
  "runPass myTrackCutSel myTrackMVASel nCuts entries =
     bindE (eventLoop myTrackCutSel myTrackMVASel nCuts entries (initState nCuts)) (\<lambda>st.
     bindE (report nCuts st) (\<lambda>printed.
     Inr (outTree st, printed)))"

text \<open>
  The argument \<open>trackMVA\<close>: whether \<open>os.path.isfile(trackMVA["path"])\<close> holds, and the
  selector that \<open>trackMVASelector(tree, path, name, cuts, vars)\<close> builds.
\<close>

record trackMVA =
  path_isfile :: bool
  selector :: trackMVASelector

definition createJetTreeTC :: "event list \<Rightarrow> trackCutSelector option \<Rightarrow> trackMVA option
    \<Rightarrow> error + outEntry list \<times> real list list" where
  "createJetTreeTC entries trackCut trackMVA =
     (case trackMVA of
        None \<Rightarrow> runPass trackCut None 1 entries
      | Some m \<Rightarrow>
          if \<not> path_isfile m then Inl FileDoesNotExist
          else runPass trackCut (Some (selector m)) (length (cuts (selector m))) entries)"

subsection \<open>Notions used in the statements\<close>

text \<open>The selected-track lists of a jet that are not empty, in the order of the thresholds.\<close>

definition nonEmpty :: "selTrack list list \<Rightarrow> selTrack list list" where
  "nonEmpty selTracks = filter (\<lambda>sel. sel \<noteq> []) selTracks"

text \<open>The four vectors of an entry have one length, between 1 and \<open>nCuts\<close>.\<close>

definition wellFormedEntry :: "nat \<Rightarrow> outEntry \<Rightarrow> bool" where
  "wellFormedEntry nCuts e \<longleftrightarrow>
     (let n = length (Jet_nseltracks (vectors e))
      in length (Jet_Ip (vectors e)) = n \<and> length (TCHE (vectors e)) = n
         \<and> length (TCHP (vectors e)) = n \<and> 1 \<le> n \<and> n \<le> nCuts)"

text \<open>
  What holds between two jets: the vectors are cleared and every filled entry is well
  formed.
\<close>

definition passInvariant :: "nat \<Rightarrow> state \<Rightarrow> bool" where
  "passInvariant nCuts st \<longleftrightarrow>
     outVariables st = cleared \<and> (\<forall>e \<in> set (outTree st). wellFormedEntry nCuts e)"

text \<open>
  What the track loop leaves unchanged: the vectors, the filled entries and the number
  of selected-track lists.
\<close>

definition sameOutput :: "outVariables \<Rightarrow> outEntry list \<Rightarrow> nat
    \<Rightarrow> state \<times> selTrack list list \<Rightarrow> bool" where
  "sameOutput ov ot n s \<longleftrightarrow>
     outVariables (fst s) = ov \<and> outTree (fst s) = ot \<and> length (snd s) = n"

text \<open>Some category has no track at all.\<close>

definition someTotalZero :: "'a counters_scheme \<Rightarrow> bool" where
  "someTotalZero c \<longleftrightarrow>
     nTotTracksB c = 0 \<or> nTotTracksC c = 0 \<or> nTotTracksLight c = 0 \<or> nTotTracksPU c = 0"

text \<open>The truth value of the cut predicate for a track; true when none is configured.\<close>

definition cutPassed :: "trackCutSelector option \<Rightarrow> event \<Rightarrow> nat \<Rightarrow> bool" where
  "cutPassed myTrackCutSel tree track =
     (case myTrackCutSel of
        None \<Rightarrow> True
      | Some sel \<Rightarrow> fst (trackCutSelector_evaluate sel tree track) \<noteq> 0)"

text \<open>
  How the track loop reads the result of the selection: after \<open>continue\<close> the track is
  accepted under no threshold, else under the thresholds \<open>i\<close> with \<open>keepTrack[i]\<close>.
\<close>

definition accepted :: "bool list option \<Rightarrow> nat \<Rightarrow> bool" where
  "accepted keep i =
     (case keep of None \<Rightarrow> False | Some keepTrack \<Rightarrow> i < length keepTrack \<and> keepTrack ! i)"

subsection \<open>Example inputs\<close>

text \<open>A histogram of four bins on \<open>[0, 4)\<close> with one entry in each bin.\<close>

definition hist4 :: TH1 where
  "hist4 = \<lparr>fXmin = 0, fXmax = 4, fContents = [1, 1, 1, 1], fUnderflow = 0, fOverflow = 0\<rparr>"

text \<open>A histogram of a single bin on \<open>[0, 1)\<close> with three entries.\<close>

definition hist1 :: TH1 where
  "hist1 = \<lparr>fXmin = 0, fXmax = 1, fContents = [3], fUnderflow = 0, fOverflow = 0\<rparr>"

text \<open>
  A b jet with the tracks 0 and 1, a c jet, a gluon jet and a jet below the threshold
  on the generated momentum, with one track each.
\<close>

definition jetB :: jet where
  "jetB = \<lparr>Jet_genpt = 20, Jet_pt = 25, Jet_ntracks = 2, Jet_eta = 0, Jet_phi = 0,
           Jet_flavour = 5, Jet_nFirstTrack = 0, Jet_nLastTrack = 2\<rparr>"

definition jetC :: jet where
  "jetC = \<lparr>Jet_genpt = 30, Jet_pt = 35, Jet_ntracks = 1, Jet_eta = 1, Jet_phi = 0,
           Jet_flavour = - 4, Jet_nFirstTrack = 2, Jet_nLastTrack = 3\<rparr>"

definition jetLight :: jet where
  "jetLight = \<lparr>Jet_genpt = 40, Jet_pt = 45, Jet_ntracks = 1, Jet_eta = 1, Jet_phi = 1,
           Jet_flavour = 21, Jet_nFirstTrack = 3, Jet_nLastTrack = 4\<rparr>"

definition jetPU :: jet where
  "jetPU = \<lparr>Jet_genpt = 5, Jet_pt = 22, Jet_ntracks = 1, Jet_eta = 0, Jet_phi = 1,
           Jet_flavour = 5, Jet_nFirstTrack = 4, Jet_nLastTrack = 5\<rparr>"

text \<open>An entry with the b jet alone, and an entry with the four jets.\<close>

definition entry1 :: event where
  "entry1 = \<lparr>Jets = [jetB], Track_IPsig = [1, 5]\<rparr>"

definition entry4 :: event where
  "entry4 = \<lparr>Jets = [jetB, jetC, jetLight, jetPU], Track_IPsig = [1, 5, 2, 3, 4]\<rparr>"

text \<open>A cut predicate that rejects every track and one that passes every track.\<close>

definition rejectAll :: trackCutSelector where
  "rejectAll = \<lparr>cut_formula = (\<lambda>tree trackN. 0)\<rparr>"

definition passAll :: trackCutSelector where
  "passAll = \<lparr>cut_formula = (\<lambda>tree trackN. 1)\<rparr>"

text \<open>
  A classifier with the single input variable \<open>Track_IPsig\<close>, whose score is the value
  of that variable, and the thresholds 0 and 2.
\<close>

definition mvaIPsig :: trackMVASelector where
  "mvaIPsig = \<lparr>cuts = [0, 2],
               trackVars = [''Track_IPsig''],
               trackVarFormulas = (\<lambda>name tree trackN. Track_IPsig tree ! trackN),
               reader = sum_list\<rparr>"

text \<open>The same classifier with the thresholds 10 and 0, in decreasing order.\<close>

definition mvaDecreasing :: trackMVASelector where
  "mvaDecreasing = \<lparr>cuts = [10, 0],
               trackVars = [''Track_IPsig''],
               trackVarFormulas = (\<lambda>name tree trackN. Track_IPsig tree ! trackN),
               reader = sum_list\<rparr>"

section \<open>The ROC builder\<close>

lemma map_nth_snd: "map (\<lambda>i. snd (g ! i)) [0..<length g] = map snd g"
  by (rule nth_equalityI) simp_all

lemma drawROC_equal_counts:
  "length s = length b \<Longrightarrow>
   drawROCfromEffVsCutCurves s b = Inr (zip (map snd s) (map snd b))"
proof -
  assume len: "length s = length b"
  have "map (\<lambda>i. snd (s ! i)) [0..<length b] = map snd s"
    using map_nth_snd [of s] len by simp
  then show ?thesis
    using len map_nth_snd [of b]
    by (simp add: drawROCfromEffVsCutCurves_def GetN_def GetPoint_def TGraph_def Let_def)
qed

text \<open>
  Claim C2, as the code has it. For two curves with the same number \<open>N\<close> of points the
  ROC builder returns an \<open>N\<close>-point curve whose \<open>i\<close>-th point has the signal curve's
  \<open>i\<close>-th efficiency as x-coordinate and the background curve's \<open>i\<close>-th efficiency as
  y-coordinate: the arrays are handed to \<open>TGraph(nPoints, sigEff, bkgEff)\<close> in this order.
\<close>

theorem drawROC_points:
  "length sigGraph = length bkgGraph \<Longrightarrow>
   \<exists>roc. drawROCfromEffVsCutCurves sigGraph bkgGraph = Inr roc
     \<and> GetN roc = GetN sigGraph
     \<and> (\<forall>i < GetN sigGraph.
           GetPoint roc i = (snd (GetPoint sigGraph i), snd (GetPoint bkgGraph i)))"
  by (simp add: drawROC_equal_counts GetN_def GetPoint_def)

theorem drawROC_points_witness:
  "length [(0, 9/10), (1, 1/2), (2, 1/10 :: real)]
     = length [(0, 8/10), (1, 3/10), (2, 5/100 :: real)]
   \<and> (\<exists>roc. drawROCfromEffVsCutCurves
          [(0, 9/10), (1, 1/2), (2, 1/10)] [(0, 8/10), (1, 3/10), (2, 5/100)] = Inr roc
        \<and> GetN roc = 3
        \<and> GetPoint roc 0 = (9/10, 8/10))"
proof -
  let ?s = "[(0, 9/10), (1, 1/2), (2, 1/10 :: real)]"
  let ?b = "[(0, 8/10), (1, 3/10), (2, 5/100 :: real)]"
  have len: "length ?s = length ?b" by simp
  from drawROC_points [OF len] obtain roc
    where r: "drawROCfromEffVsCutCurves ?s ?b = Inr roc"
      and n: "GetN roc = GetN ?s"
      and pts: "\<forall>i < GetN ?s. GetPoint roc i = (snd (GetPoint ?s i), snd (GetPoint ?b i))"
    by blast
  have "GetN ?s = 3" by (simp add: GetN_def)
  moreover have "GetPoint roc 0 = (9/10, 8/10)"
    using pts by (simp add: GetN_def GetPoint_def)
  ultimately show ?thesis using r n len by auto
qed

text \<open>
  Claim C2 as the specification states it (x-coordinate from the background curve,
  y-coordinate from the signal curve) fails on the specification's own example: the
  code returns the points with the coordinates the other way round.
\<close>

theorem drawROC_spec_example_counterexample:
  "drawROCfromEffVsCutCurves
     [(0, 9/10), (1, 1/2), (2, 1/10)] [(0, 8/10), (1, 3/10), (2, 5/100)]
   = Inr [(9/10, 8/10), (1/2, 3/10), (1/10, 5/100)]
   \<and> drawROCfromEffVsCutCurves
     [(0, 9/10), (1, 1/2), (2, 1/10)] [(0, 8/10), (1, 3/10), (2, 5/100)]
   \<noteq> Inr [(8/10, 9/10), (3/10, 1/2), (5/100, 1/10)]"
  by (simp add: drawROC_equal_counts)

text \<open>
  Claim C9. When the two point counts differ, the ROC builder prints the mismatch with
  both counts and exits with status 1, returning no curve; when they are equal it
  returns a curve.
\<close>

theorem drawROC_mismatch_aborts:
  "(GetN sigGraph \<noteq> GetN bkgGraph \<longrightarrow>
      drawROCfromEffVsCutCurves sigGraph bkgGraph =
        Inl (SystemExit [SameNumberOfEntries, EntriesSignal (GetN sigGraph),
                         EntriesBackground (GetN bkgGraph)] 1))
   \<and> (GetN sigGraph = GetN bkgGraph \<longrightarrow>
      (\<exists>roc. drawROCfromEffVsCutCurves sigGraph bkgGraph = Inr roc))"
  by (simp add: drawROCfromEffVsCutCurves_def Let_def)

theorem drawROC_mismatch_aborts_witness:
  "GetN [(0, 1), (1, 1/2), (2, 0 :: real)] \<noteq> GetN [(0, 1), (1, 1/2), (2, 1/4), (3, 0 :: real)]
   \<and> drawROCfromEffVsCutCurves [(0, 1), (1, 1/2), (2, 0)] [(0, 1), (1, 1/2), (2, 1/4), (3, 0)]
       = Inl (SystemExit [SameNumberOfEntries, EntriesSignal 3, EntriesBackground 4] 1)
   \<and> GetN [(0, 1), (1, 1/2), (2, 0 :: real)] = GetN [(0, 1), (1, 1/4), (2, 0 :: real)]
   \<and> (\<exists>roc. drawROCfromEffVsCutCurves [(0, 1), (1, 1/2), (2, 0)] [(0, 1), (1, 1/4), (2, 0)]
          = Inr roc)"
  using drawROC_mismatch_aborts [of "[(0, 1), (1, 1/2), (2, 0)]" "[(0, 1), (1, 1/2), (2, 1/4), (3, 0)]"]
    drawROC_mismatch_aborts [of "[(0, 1), (1, 1/2), (2, 0)]" "[(0, 1), (1, 1/4), (2, 0)]"]
  by (simp add: GetN_def)

section \<open>The efficiency-versus-cut curve\<close>

lemma effLoop_append:
  "effLoop h (xs @ ys) s = effLoop h ys (effLoop h xs s)"
  by (induction h xs s rule: effLoop.induct) (simp_all add: Let_def)

lemma sum_list_drop_Suc:
  "k < length cs \<Longrightarrow> sum_list (drop k cs) - cs ! k = sum_list (drop (Suc k) (cs :: real list))"
  by (simp add: Cons_nth_drop_Suc [symmetric])

lemma effLoop_upt:
  assumes "2 \<le> n" "n \<le> GetNbinsX h"
  shows "effLoop h [2..<n] ([GetBinLowEdge h 1], Integral h, [Integral h]) =
         (map (GetBinLowEdge h) [1..<n],
          sum_list (drop (n - 2) (fContents h)),
          map (\<lambda>k. sum_list (drop k (fContents h))) [0..<n - 1])"
  using assms
proof (induction n)
  case 0
  then show ?case by simp
next
  case (Suc n)
  show ?case
  proof (cases "n = 1")
    case True
    then show ?thesis by (simp add: Integral_def numeral_2_eq_2)
  next
    case False
    with Suc.prems have n2: "2 \<le> n" and nB: "n < GetNbinsX h" by simp_all
    then have IH: "effLoop h [2..<n] ([GetBinLowEdge h 1], Integral h, [Integral h]) =
         (map (GetBinLowEdge h) [1..<n],
          sum_list (drop (n - 2) (fContents h)),
          map (\<lambda>k. sum_list (drop k (fContents h))) [0..<n - 1])"
      using Suc.IH by simp
    obtain m where m: "n = Suc (Suc m)"
      using n2 by (metis Suc_le_D numeral_2_eq_2 Suc_le_mono)
    have upt: "[2..<Suc n] = [2..<n] @ [n]" using n2 by simp
    have c: "GetBinContent h (n - 1) = fContents h ! (n - 2)"
      using nB by (simp add: m GetBinContent_def GetNbinsX_def)
    have d: "sum_list (drop (n - 2) (fContents h)) - fContents h ! (n - 2)
               = sum_list (drop (Suc n - 2) (fContents h))"
      using nB sum_list_drop_Suc [of m "fContents h"] by (simp add: m GetNbinsX_def)
    have u1: "[1..<Suc n] = [1..<n] @ [n]" using n2 by simp
    have u2: "[0..<Suc n - 1] = [0..<n - 1] @ [n - 1]" by (simp add: m)
    show ?thesis
      unfolding upt effLoop_append IH u1 u2
      using d c by (simp add: Let_def m)
  qed
qed

lemma effDivisor_closed:
  "effDivisor h totalN =
     (if totalN \<noteq> 0 then real totalN
      else sum_list (drop (GetNbinsX h - 2) (fContents h)))"
proof (cases "2 \<le> GetNbinsX h")
  case True
  then show ?thesis
    using effLoop_upt [of "GetNbinsX h" h] by (simp add: effDivisor_def)
next
  case False
  then have "[2..<GetNbinsX h] = []" "GetNbinsX h - 2 = 0" by simp_all
  then show ?thesis by (simp add: effDivisor_def Integral_def)
qed

lemma drawEff_closed:
  "drawEffVsCutCurve h totalN =
     (let cs = fContents h; B = length cs;
          d = (if totalN \<noteq> 0 then real totalN else sum_list (drop (B - 2) cs))
      in if d = 0 then Inl ZeroDivisionError
         else Inr (zip (map (GetBinLowEdge h) [1..<max 2 B])
                       (map (\<lambda>k. sum_list (drop k cs) / d) [0..<max 1 (B - 1)])))"
proof (cases "2 \<le> GetNbinsX h")
  case True
  then have m: "max 2 (length (fContents h)) = length (fContents h)"
    "max 1 (length (fContents h) - 1) = length (fContents h) - 1"
    by (simp_all add: GetNbinsX_def)
  show ?thesis
    using True effLoop_upt [of "GetNbinsX h" h]
    by (simp add: drawEffVsCutCurve_def TGraph_def Let_def m) (simp add: GetNbinsX_def comp_def)
next
  case False
  then have B: "length (fContents h) < 2" by (simp add: GetNbinsX_def)
  then have m: "max 2 (length (fContents h)) = 2"
    "max (Suc 0) (length (fContents h) - Suc 0) = Suc 0"
    "length (fContents h) - 2 = 0" "[2..<length (fContents h)] = []"
    by simp_all
  have u: "[Suc 0..<2] = [Suc 0]" by (simp add: upt_rec)
  show ?thesis
    by (simp add: drawEffVsCutCurve_def TGraph_def Let_def m u GetNbinsX_def Integral_def comp_def)
qed

lemma drawEff_Inr:
  assumes "drawEffVsCutCurve h totalN = Inr g"
  shows "effDivisor h totalN \<noteq> 0"
    and "g = zip (map (GetBinLowEdge h) [1..<max 2 (GetNbinsX h)])
                 (map (\<lambda>k. sum_list (drop k (fContents h)) / effDivisor h totalN)
                      [0..<max 1 (GetNbinsX h - 1)])"
  using assms
  by (simp_all add: drawEff_closed effDivisor_closed GetNbinsX_def Let_def split: if_splits)

lemma drawEff_length:
  assumes "drawEffVsCutCurve h totalN = Inr g"
  shows "length g = max 1 (GetNbinsX h - 1)"
  using drawEff_Inr(2) [OF assms] by auto

lemma drawEff_fst:
  assumes "drawEffVsCutCurve h totalN = Inr g"
  shows "map fst g = map (GetBinLowEdge h) [1..<max 2 (GetNbinsX h)]"
proof -
  have "length (map (GetBinLowEdge h) [1..<max 2 (GetNbinsX h)])
      = length (map (\<lambda>k. sum_list (drop k (fContents h)) / effDivisor h totalN)
                      [0..<max 1 (GetNbinsX h - 1)])"
    by auto
  then show ?thesis
    unfolding drawEff_Inr(2) [OF assms] by (rule map_fst_zip)
qed

text \<open>
  Claim C7, as the code has it. Whenever drawEffVsCutCurve returns a curve for a
  histogram of \<open>B\<close> bins: if \<open>B \<ge> 2\<close> the curve has exactly \<open>B - 1\<close> points and its
  cut values are the lower edges of the bins 1 to \<open>B - 1\<close>, the last bin being
  omitted; if \<open>B = 1\<close> the curve is the single point at the lower edge of bin 1.
\<close>

theorem drawEff_point_count:
  assumes "drawEffVsCutCurve h totalN = Inr g"
  shows "(2 \<le> GetNbinsX h \<longrightarrow>
            GetN g = GetNbinsX h - 1
          \<and> map fst g = map (GetBinLowEdge h) [1..<GetNbinsX h])
       \<and> (GetNbinsX h = 1 \<longrightarrow>
            GetN g = 1 \<and> map fst g = [GetBinLowEdge h 1])"
proof -
  have "[1..<2] = [1::nat]" by (simp add: upt_rec)
  then show ?thesis
    using drawEff_length [OF assms] drawEff_fst [OF assms]
    by (auto simp: GetN_def max_def)
qed

theorem drawEff_point_count_witness:
  "drawEffVsCutCurve hist4 0 = Inr [(0, 2), (1, 3/2), (2, 1)]
   \<and> GetNbinsX hist4 = 4
   \<and> GetN [(0, 2), (1, 3/2), (2, 1 :: real)] = GetNbinsX hist4 - 1
   \<and> drawEffVsCutCurve hist1 0 = Inr [(0, 1)]
   \<and> GetNbinsX hist1 = 1
   \<and> GetN [(0, 1 :: real)] = 1"
proof -
  have r4: "drawEffVsCutCurve hist4 0 = Inr [(0, 2), (1, 3/2), (2, 1)]"
    by (simp add: drawEff_closed hist4_def GetBinLowEdge_def GetNbinsX_def upt_rec)
  have r1: "drawEffVsCutCurve hist1 0 = Inr [(0, 1)]"
    by (simp add: drawEff_closed hist1_def GetBinLowEdge_def GetNbinsX_def upt_rec)
  have "GetNbinsX hist4 = 4" "GetNbinsX hist1 = 1"
    by (simp_all add: GetNbinsX_def hist4_def hist1_def)
  with drawEff_point_count [OF r4] drawEff_point_count [OF r1] r4 r1
  show ?thesis by simp
qed

text \<open>
  Claim C7 as the specification states it fails for a histogram of one bin: the curve
  has one point, not \<open>B - 1 = 0\<close> points, and the only bin is not omitted.
\<close>

theorem drawEff_one_bin_counterexample:
  "GetNbinsX hist1 = 1
   \<and> drawEffVsCutCurve hist1 0 = Inr [(0, 1)]
   \<and> int (GetN [(0, 1 :: real)]) \<noteq> int (GetNbinsX hist1) - 1"
  by (simp add: drawEff_closed hist1_def GetBinLowEdge_def GetNbinsX_def GetN_def upt_rec)

text \<open>
  Claim C3, evaluated on the code. The histogram \<open>hist4\<close> has integral 4. Called without
  a total, drawEffVsCutCurve divides by what is left in \<open>integral\<close> after the loop, the
  content 2 of the last two bins, so the first efficiency value is 2 and not 1.
\<close>

theorem drawEff_unsupplied_total_example:
  "Integral hist4 = 4
   \<and> effDivisor hist4 0 = 2
   \<and> drawEffVsCutCurve hist4 0 = Inr [(0, 2), (1, 3/2), (2, 1)]"
  by (simp add: drawEff_closed effDivisor_closed Integral_def hist4_def GetBinLowEdge_def
      GetNbinsX_def upt_rec)

section \<open>Steps that can fail\<close>

lemma bindE_Inr [simp]: "bindE (Inr x) f = f x"
  by (simp add: bindE_def)

lemma bindE_Inl [simp]: "bindE (Inl e) f = Inl e"
  by (simp add: bindE_def)

lemma bindE_eq_Inr: "bindE m f = Inr y \<longleftrightarrow> (\<exists>x. m = Inr x \<and> f x = Inr y)"
  by (cases m) simp_all

lemma bindE_InrE:
  assumes "bindE m f = Inr y"
  obtains x where "m = Inr x" and "f x = Inr y"
  using assms by (cases m) simp_all

lemma foldE_append: "foldE f (xs @ ys) s = bindE (foldE f xs s) (foldE f ys)"
proof (induction xs arbitrary: s)
  case Nil
  show ?case by simp
next
  case (Cons x xs)
  show ?case by (cases "f x s") (simp_all add: Cons.IH)
qed

lemma foldE_upt_Suc:
  "foldE f [0..<Suc k] s = bindE (foldE f [0..<k] s) (f k)"
proof -
  have "foldE f [k] t = f k t" for t by (cases "f k t") simp_all
  then have "foldE f [k] = f k" by (rule ext)
  then show ?thesis by (simp add: foldE_append)
qed

lemma foldE_invariant:
  assumes "foldE f xs s = Inr s'" and "P s"
    and "\<forall>x \<in> set xs. \<forall>t t'. P t \<longrightarrow> f x t = Inr t' \<longrightarrow> P t'"
  shows "P s'"
  using assms
proof (induction xs arbitrary: s)
  case Nil
  then show ?case by simp
next
  case (Cons x xs)
  from Cons.prems(1) obtain t where t: "f x s = Inr t" "foldE f xs t = Inr s'"
    by (auto simp: bindE_eq_Inr)
  have Pt: "P t" using Cons.prems(2,3) t(1) by simp
  have step: "\<forall>x \<in> set xs. \<forall>t t'. P t \<longrightarrow> f x t = Inr t' \<longrightarrow> P t'"
    using Cons.prems(3) by (meson list.set_intros(2))
  show ?case by (rule Cons.IH [OF t(2) Pt step])
qed

section \<open>The selection of one track\<close>

lemma any_iff: "any xs \<longleftrightarrow> True \<in> set xs"
  by (induction xs) (auto simp: any_def)

lemma accepted_any:
  "accepted (if \<not> any keep then None else Some keep) i \<longleftrightarrow> i < length keep \<and> keep ! i"
proof (cases "any keep")
  case True
  then show ?thesis by (simp add: accepted_def)
next
  case False
  have "\<not> keep ! i" if "i < length keep"
    using False nth_mem [OF that] by (simp add: any_iff) metis
  with False show ?thesis by (auto simp: accepted_def)
qed

lemma any_replicate: "any (replicate n b) \<longleftrightarrow> 0 < n \<and> b"
  by (auto simp: any_iff)

lemma zip_replicate_and:
  "length rs = n \<Longrightarrow> map (\<lambda>(x, y). x \<and> y) (zip (replicate n b) rs) = map (\<lambda>y. b \<and> y) rs"
  by (rule nth_equalityI) simp_all

lemma cut_evaluate_calls:
  "snd (trackCutSelector_evaluate sel tree track) = [CutEvalInstance track]"
  by (simp add: trackCutSelector_evaluate_def)

lemma getValue_calls:
  "snd (trackMVASelector_getValue sel tree track)
     = map (\<lambda>var. VarEvalInstance var track) (trackVars sel) @ [EvaluateMVA]"
  by (simp add: trackMVASelector_getValue_def trackMVASelector_sync_def)

lemma mva_evaluate_eq:
  "trackMVASelector_evaluate sel tree track =
     (map (\<lambda>cut. fst (trackMVASelector_getValue sel tree track) > cut) (cuts sel),
      snd (trackMVASelector_getValue sel tree track))"
  by (simp add: trackMVASelector_evaluate_def split: prod.splits)

lemma selectTrack_eq:
  assumes "nCuts = nCutsOf myTrackMVASel"
  shows "selectTrack myTrackCutSel myTrackMVASel nCuts tree track =
     (let calls1 = (case myTrackCutSel of None \<Rightarrow> [] | Some sel \<Rightarrow> [CutEvalInstance track])
      in if \<not> (0 < nCuts \<and> cutPassed myTrackCutSel tree track) then (None, calls1)
         else (case myTrackMVASel of
                 None \<Rightarrow> (Some (replicate nCuts True), calls1)
               | Some sel \<Rightarrow>
                   (let keep = map (\<lambda>cut. fst (trackMVASelector_getValue sel tree track) > cut)
                                 (cuts sel)
                    in (if \<not> any keep then None else Some keep,
                        calls1 @ snd (trackMVASelector_getValue sel tree track)))))"
proof (cases myTrackCutSel)
  case None
  show ?thesis
  proof (cases myTrackMVASel)
    case N2: None
    show ?thesis
      by (simp add: None N2 selectTrack_def cutPassed_def any_replicate Let_def)
  next
    case (Some m)
    with assms have n: "length (cuts m) = nCuts" by (simp add: nCutsOf_def)
    show ?thesis
      by (simp add: None Some selectTrack_def cutPassed_def mva_evaluate_eq
          any_replicate zip_replicate_and n Let_def)
  qed
next
  case S1: (Some c)
  show ?thesis
  proof (cases myTrackMVASel)
    case N2: None
    show ?thesis
      by (simp add: S1 N2 selectTrack_def cutPassed_def trackCutSelector_evaluate_def
          any_replicate Let_def)
  next
    case (Some m)
    with assms have n: "length (cuts m) = nCuts" by (simp add: nCutsOf_def)
    show ?thesis
      by (simp add: S1 Some selectTrack_def cutPassed_def mva_evaluate_eq
          trackCutSelector_evaluate_def any_replicate zip_replicate_and n Let_def)
  qed
qed

lemma accepted_Some_replicate: "accepted (Some (replicate n True)) i \<longleftrightarrow> i < n"
  by (auto simp: accepted_def)

text \<open>
  Claim C6, as the code has it. For every track, with \<open>nCuts\<close> the number of thresholds
  of the configuration: when a cut-based predicate is configured it is evaluated exactly
  once, first, and its truth value enters the decision of every threshold alike. When a
  classifier is configured, its score is computed once, after one evaluation of the
  formula of every input variable, provided that there is a threshold and that the cut
  predicate has not rejected the track; otherwise the classifier is not evaluated at
  all. The track is accepted under threshold \<open>i\<close> iff \<open>i < nCuts\<close>, the cut predicate, if
  configured, passed, and the score, if a classifier is configured, is strictly greater
  than cut value \<open>i\<close>.
\<close>

theorem selectTrack_calls_and_decision:
  assumes "nCuts = nCutsOf myTrackMVASel"
  shows "snd (selectTrack myTrackCutSel myTrackMVASel nCuts tree track) =
           (case myTrackCutSel of None \<Rightarrow> [] | Some sel \<Rightarrow> [CutEvalInstance track])
           @ (case myTrackMVASel of
                None \<Rightarrow> []
              | Some sel \<Rightarrow>
                  if 0 < nCuts \<and> cutPassed myTrackCutSel tree track
                  then map (\<lambda>var. VarEvalInstance var track) (trackVars sel) @ [EvaluateMVA]
                  else [])
       \<and> (\<forall>i. accepted (fst (selectTrack myTrackCutSel myTrackMVASel nCuts tree track)) i
              \<longleftrightarrow> i < nCuts \<and> cutPassed myTrackCutSel tree track
                  \<and> (case myTrackMVASel of
                        None \<Rightarrow> True
                      | Some sel \<Rightarrow>
                          fst (trackMVASelector_getValue sel tree track) > cuts sel ! i))"
proof (cases "0 < nCuts \<and> cutPassed myTrackCutSel tree track")
  case False
  have sel: "selectTrack myTrackCutSel myTrackMVASel nCuts tree track =
        (None, case myTrackCutSel of None \<Rightarrow> [] | Some sel \<Rightarrow> [CutEvalInstance track])"
    using False unfolding selectTrack_eq [OF assms] by (simp add: Let_def)
  show ?thesis
    unfolding sel fst_conv snd_conv
    using False by (auto simp: accepted_def split: option.splits)
next
  case True
  show ?thesis
  proof (cases myTrackMVASel)
    case None
    have sel: "selectTrack myTrackCutSel myTrackMVASel nCuts tree track =
        (Some (replicate nCuts True),
         case myTrackCutSel of None \<Rightarrow> [] | Some sel \<Rightarrow> [CutEvalInstance track])"
      using True unfolding selectTrack_eq [OF assms] by (simp add: None Let_def)
    show ?thesis
      unfolding sel fst_conv snd_conv accepted_Some_replicate
      using True by (simp add: None)
  next
    case (Some m)
    with assms have n: "length (cuts m) = nCuts" by (simp add: nCutsOf_def)
    have sel: "selectTrack myTrackCutSel myTrackMVASel nCuts tree track =
        (if \<not> any (map (\<lambda>cut. fst (trackMVASelector_getValue m tree track) > cut) (cuts m))
         then None
         else Some (map (\<lambda>cut. fst (trackMVASelector_getValue m tree track) > cut) (cuts m)),
         (case myTrackCutSel of None \<Rightarrow> [] | Some sel \<Rightarrow> [CutEvalInstance track])
           @ snd (trackMVASelector_getValue m tree track))"
      using True unfolding selectTrack_eq [OF assms] by (simp add: Some Let_def)
    show ?thesis
      unfolding sel fst_conv snd_conv accepted_any
      using True n by (auto simp: Some getValue_calls)
  qed
qed

theorem selectTrack_calls_and_decision_witness:
  "2 = nCutsOf (Some mvaIPsig)
   \<and> snd (selectTrack (Some passAll) (Some mvaIPsig) 2 entry1 0)
       = [CutEvalInstance 0, VarEvalInstance ''Track_IPsig'' 0, EvaluateMVA]
   \<and> accepted (fst (selectTrack (Some passAll) (Some mvaIPsig) 2 entry1 0)) 0
   \<and> \<not> accepted (fst (selectTrack (Some passAll) (Some mvaIPsig) 2 entry1 0)) 1"
proof -
  have n: "2 = nCutsOf (Some mvaIPsig)" by (simp add: nCutsOf_def mvaIPsig_def)
  have p: "cutPassed (Some passAll) entry1 0"
    by (simp add: cutPassed_def passAll_def trackCutSelector_evaluate_def)
  have v: "fst (trackMVASelector_getValue mvaIPsig entry1 0) = 1"
    by (simp add: trackMVASelector_getValue_def trackMVASelector_sync_def mvaIPsig_def
        entry1_def)
  from selectTrack_calls_and_decision [OF n, of "Some passAll" entry1 0] n p v
  show ?thesis by (simp add: mvaIPsig_def)
qed

text \<open>
  Claim C6 as the specification states it fails for a track that the cut predicate
  rejects: the track loop continues with the next track and the classifier is not
  evaluated for this one.
\<close>

theorem selectTrack_rejected_counterexample:
  "snd (selectTrack (Some rejectAll) (Some mvaIPsig) 2 entry1 0) = [CutEvalInstance 0]
   \<and> count_list (snd (selectTrack (Some rejectAll) (Some mvaIPsig) 2 entry1 0)) EvaluateMVA = 0"
  by code_simp

section \<open>The output of one jet\<close>

lemma assignTCHE_fields:
  "Jet_nseltracks (assignTCHE i sel out) = Jet_nseltracks out"
  "Jet_Ip (assignTCHE i sel out) = Jet_Ip out"
  "length (TCHE (assignTCHE i sel out)) = length (TCHE out)"
  "TCHP (assignTCHE i sel out) = TCHP out"
  by (simp_all add: assignTCHE_def vector_setitem_def)

lemma assignTCHP_fields:
  "Jet_nseltracks (assignTCHP i sel out) = Jet_nseltracks out"
  "Jet_Ip (assignTCHP i sel out) = Jet_Ip out"
  "TCHE (assignTCHP i sel out) = TCHE out"
  "length (TCHP (assignTCHP i sel out)) = length (TCHP out)"
  by (simp_all add: assignTCHP_def vector_setitem_def)

lemma fillCut_empty:
  "selTracks ! i = [] \<Longrightarrow> fillCut selTracks i (b, st) = (b, st)"
  by (simp add: fillCut_def)

lemma fillCut_nonempty:
  assumes "selTracks ! i \<noteq> []"
  shows "fst (fillCut selTracks i (b, st))"
    and "outTree (snd (fillCut selTracks i (b, st))) = outTree st"
    and "Jet_nseltracks (outVariables (snd (fillCut selTracks i (b, st))))
           = Jet_nseltracks (outVariables st) @ [real (length (selTracks ! i))]"
    and "length (Jet_Ip (outVariables (snd (fillCut selTracks i (b, st)))))
           = Suc (length (Jet_Ip (outVariables st)))"
    and "length (TCHE (outVariables (snd (fillCut selTracks i (b, st)))))
           = Suc (length (TCHE (outVariables st)))"
    and "length (TCHP (outVariables (snd (fillCut selTracks i (b, st)))))
           = Suc (length (TCHP (outVariables st)))"
  using assms
  by (simp_all add: fillCut_def Let_def assignTCHE_fields assignTCHP_fields pushEntries_def)

lemma fold_upt_Suc: "fold f [0..<Suc k] s = f k (fold f [0..<k] s)"
  by simp

lemma nonEmpty_snoc:
  "nonEmpty (xs @ [x]) = (if x = [] then nonEmpty xs else nonEmpty xs @ [x])"
  by (simp add: nonEmpty_def)

lemma nonEmpty_bounds:
  "length (nonEmpty selTracks) \<le> length selTracks"
  "nonEmpty selTracks \<noteq> [] \<Longrightarrow> 1 \<le> length (nonEmpty selTracks)"
  by (simp_all add: nonEmpty_def Suc_le_eq)

lemma nonEmpty_lengths_pos:
  "\<forall>sel \<in> set (nonEmpty selTracks). 1 \<le> real (length sel)"
  by (auto simp: nonEmpty_def Suc_le_eq)

lemma fillCut_loop:
  assumes "k \<le> length selTracks"
  shows "(fst (fold (fillCut selTracks) [0..<k] (b0, st))
            \<longleftrightarrow> b0 \<or> nonEmpty (take k selTracks) \<noteq> [])
       \<and> outTree (snd (fold (fillCut selTracks) [0..<k] (b0, st))) = outTree st
       \<and> Jet_nseltracks (outVariables (snd (fold (fillCut selTracks) [0..<k] (b0, st))))
           = Jet_nseltracks (outVariables st)
             @ map (\<lambda>sel. real (length sel)) (nonEmpty (take k selTracks))
       \<and> length (Jet_Ip (outVariables (snd (fold (fillCut selTracks) [0..<k] (b0, st)))))
           = length (Jet_Ip (outVariables st)) + length (nonEmpty (take k selTracks))
       \<and> length (TCHE (outVariables (snd (fold (fillCut selTracks) [0..<k] (b0, st)))))
           = length (TCHE (outVariables st)) + length (nonEmpty (take k selTracks))
       \<and> length (TCHP (outVariables (snd (fold (fillCut selTracks) [0..<k] (b0, st)))))
           = length (TCHP (outVariables st)) + length (nonEmpty (take k selTracks))"
  using assms
proof (induction k)
  case 0
  show ?case by (simp add: nonEmpty_def)
next
  case (Suc k)
  obtain b1 st1 where r: "fold (fillCut selTracks) [0..<k] (b0, st) = (b1, st1)"
    by (cases "fold (fillCut selTracks) [0..<k] (b0, st)")
  have k: "k < length selTracks" using Suc.prems by simp
  then have tk: "take (Suc k) selTracks = take k selTracks @ [selTracks ! k]"
    by (simp add: take_Suc_conv_app_nth)
  have IH: "(b1 \<longleftrightarrow> b0 \<or> nonEmpty (take k selTracks) \<noteq> [])
       \<and> outTree st1 = outTree st
       \<and> Jet_nseltracks (outVariables st1) = Jet_nseltracks (outVariables st)
             @ map (\<lambda>sel. real (length sel)) (nonEmpty (take k selTracks))
       \<and> length (Jet_Ip (outVariables st1))
           = length (Jet_Ip (outVariables st)) + length (nonEmpty (take k selTracks))
       \<and> length (TCHE (outVariables st1))
           = length (TCHE (outVariables st)) + length (nonEmpty (take k selTracks))
       \<and> length (TCHP (outVariables st1))
           = length (TCHP (outVariables st)) + length (nonEmpty (take k selTracks))"
    using Suc.IH k by (simp add: r)
  have step: "fold (fillCut selTracks) [0..<Suc k] (b0, st) = fillCut selTracks k (b1, st1)"
    unfolding fold_upt_Suc r ..
  show ?case
  proof (cases "selTracks ! k = []")
    case True
    with IH show ?thesis
      unfolding step by (simp add: fillCut_empty tk nonEmpty_snoc)
  next
    case False
    from IH False show ?thesis
      unfolding step by (simp add: fillCut_nonempty [OF False] tk nonEmpty_snoc)
  qed
qed

lemma fillJet_eq:
  "fillJet nCuts j selTracks st =
     clear (if fst (fold (fillCut selTracks) [0..<nCuts] (False, st))
            then Fill j (snd (fold (fillCut selTracks) [0..<nCuts] (False, st)))
            else snd (fold (fillCut selTracks) [0..<nCuts] (False, st)))"
  by (simp add: fillJet_def split: prod.splits)

lemma clear_fields: "outVariables (clear st) = cleared" "outTree (clear st) = outTree st"
  by (simp_all add: clear_def)

lemma Fill_outTree:
  "outTree (Fill j st) = outTree st @ [\<lparr>copiedVariables = copyJet j, vectors = outVariables st\<rparr>]"
  by (simp add: Fill_def)

lemma fillJet_cleared: "outVariables (fillJet nCuts j selTracks st) = cleared"
  by (simp add: fillJet_eq clear_fields)

lemma fillJet_entries:
  assumes len: "length selTracks = nCuts"
  shows "nonEmpty selTracks = [] \<Longrightarrow> outTree (fillJet nCuts j selTracks st) = outTree st"
    and "nonEmpty selTracks \<noteq> [] \<Longrightarrow>
         \<exists>out. outTree (fillJet nCuts j selTracks st)
                  = outTree st @ [\<lparr>copiedVariables = copyJet j, vectors = out\<rparr>]
           \<and> Jet_nseltracks out = Jet_nseltracks (outVariables st)
                 @ map (\<lambda>sel. real (length sel)) (nonEmpty selTracks)
           \<and> length (Jet_Ip out)
               = length (Jet_Ip (outVariables st)) + length (nonEmpty selTracks)
           \<and> length (TCHE out)
               = length (TCHE (outVariables st)) + length (nonEmpty selTracks)
           \<and> length (TCHP out)
               = length (TCHP (outVariables st)) + length (nonEmpty selTracks)"
proof -
  let ?r = "fold (fillCut selTracks) [0..<nCuts] (False, st)"
  have "nCuts \<le> length selTracks" using len by simp
  from fillCut_loop [OF this, of False st] len
  have b: "fst ?r \<longleftrightarrow> nonEmpty selTracks \<noteq> []"
    and t: "outTree (snd ?r) = outTree st"
    and n: "Jet_nseltracks (outVariables (snd ?r)) = Jet_nseltracks (outVariables st)
                 @ map (\<lambda>sel. real (length sel)) (nonEmpty selTracks)"
    and l: "length (Jet_Ip (outVariables (snd ?r)))
               = length (Jet_Ip (outVariables st)) + length (nonEmpty selTracks)"
      "length (TCHE (outVariables (snd ?r)))
               = length (TCHE (outVariables st)) + length (nonEmpty selTracks)"
      "length (TCHP (outVariables (snd ?r)))
               = length (TCHP (outVariables st)) + length (nonEmpty selTracks)"
    by simp_all
  show "outTree (fillJet nCuts j selTracks st) = outTree st" if "nonEmpty selTracks = []"
    using that b t by (simp add: fillJet_eq clear_fields)
  show "\<exists>out. outTree (fillJet nCuts j selTracks st)
                  = outTree st @ [\<lparr>copiedVariables = copyJet j, vectors = out\<rparr>]
           \<and> Jet_nseltracks out = Jet_nseltracks (outVariables st)
                 @ map (\<lambda>sel. real (length sel)) (nonEmpty selTracks)
           \<and> length (Jet_Ip out)
               = length (Jet_Ip (outVariables st)) + length (nonEmpty selTracks)
           \<and> length (TCHE out)
               = length (TCHE (outVariables st)) + length (nonEmpty selTracks)
           \<and> length (TCHP out)
               = length (TCHP (outVariables st)) + length (nonEmpty selTracks)"
    if "nonEmpty selTracks \<noteq> []"
  proof -
    have "outTree (fillJet nCuts j selTracks st)
        = outTree st @ [\<lparr>copiedVariables = copyJet j, vectors = outVariables (snd ?r)\<rparr>]"
      using that b t by (simp add: fillJet_eq clear_fields Fill_outTree)
    with n l show ?thesis by blast
  qed
qed

lemma fillCut_push_iff:
  "length (Jet_nseltracks (outVariables (snd (fillCut selTracks i (b, st)))))
     = length (Jet_nseltracks (outVariables st)) + (if selTracks ! i = [] then 0 else 1)
   \<and> length (Jet_Ip (outVariables (snd (fillCut selTracks i (b, st)))))
     = length (Jet_Ip (outVariables st)) + (if selTracks ! i = [] then 0 else 1)
   \<and> length (TCHE (outVariables (snd (fillCut selTracks i (b, st)))))
     = length (TCHE (outVariables st)) + (if selTracks ! i = [] then 0 else 1)
   \<and> length (TCHP (outVariables (snd (fillCut selTracks i (b, st)))))
     = length (TCHP (outVariables st)) + (if selTracks ! i = [] then 0 else 1)"
proof (cases "selTracks ! i = []")
  case True
  then show ?thesis by (simp add: fillCut_empty)
next
  case False
  from fillCut_nonempty [OF False, of b st] False show ?thesis by simp
qed

text \<open>
  Claim C5. The loop body for a threshold \<open>i\<close> pushes one entry onto each of the four
  vectors when the selected-track list of threshold \<open>i\<close> is not empty, and none when it
  is empty. So, for every jet: if every selected-track list is empty the jet fills no
  entry of the output tree; otherwise it fills one entry, and the selected-track counts
  that the jet has pushed are the lengths of the non-empty lists, in the order of the
  thresholds, each at least 1. The vectors are empty when the jet starts, so these
  counts are the whole of \<open>Jet_nseltracks\<close>.
\<close>

theorem fillJet_entry_iff_nonempty:
  assumes len: "length selTracks = nCuts"
  shows "(\<forall>i b st0.
            length (Jet_nseltracks (outVariables (snd (fillCut selTracks i (b, st0)))))
              = length (Jet_nseltracks (outVariables st0)) + (if selTracks ! i = [] then 0 else 1)
          \<and> length (Jet_Ip (outVariables (snd (fillCut selTracks i (b, st0)))))
              = length (Jet_Ip (outVariables st0)) + (if selTracks ! i = [] then 0 else 1)
          \<and> length (TCHE (outVariables (snd (fillCut selTracks i (b, st0)))))
              = length (TCHE (outVariables st0)) + (if selTracks ! i = [] then 0 else 1)
          \<and> length (TCHP (outVariables (snd (fillCut selTracks i (b, st0)))))
              = length (TCHP (outVariables st0)) + (if selTracks ! i = [] then 0 else 1))
       \<and> (nonEmpty selTracks = [] \<longrightarrow> outTree (fillJet nCuts j selTracks st) = outTree st)
       \<and> (nonEmpty selTracks \<noteq> [] \<longrightarrow>
            (\<exists>out. outTree (fillJet nCuts j selTracks st)
                     = outTree st @ [\<lparr>copiedVariables = copyJet j, vectors = out\<rparr>]
               \<and> Jet_nseltracks out = Jet_nseltracks (outVariables st)
                     @ map (\<lambda>sel. real (length sel)) (nonEmpty selTracks)
               \<and> (\<forall>sel \<in> set (nonEmpty selTracks). 1 \<le> real (length sel))))"
proof (intro conjI allI impI)
  fix i b st0
  from fillCut_push_iff [of selTracks i b st0]
  show "length (Jet_nseltracks (outVariables (snd (fillCut selTracks i (b, st0)))))
              = length (Jet_nseltracks (outVariables st0)) + (if selTracks ! i = [] then 0 else 1)"
    and "length (Jet_Ip (outVariables (snd (fillCut selTracks i (b, st0)))))
              = length (Jet_Ip (outVariables st0)) + (if selTracks ! i = [] then 0 else 1)"
    and "length (TCHE (outVariables (snd (fillCut selTracks i (b, st0)))))
              = length (TCHE (outVariables st0)) + (if selTracks ! i = [] then 0 else 1)"
    and "length (TCHP (outVariables (snd (fillCut selTracks i (b, st0)))))
              = length (TCHP (outVariables st0)) + (if selTracks ! i = [] then 0 else 1)"
    by blast+
next
  assume "nonEmpty selTracks = []"
  then show "outTree (fillJet nCuts j selTracks st) = outTree st"
    by (rule fillJet_entries(1) [OF len])
next
  assume "nonEmpty selTracks \<noteq> []"
  from fillJet_entries(2) [OF len this, of j st] obtain out
    where o: "outTree (fillJet nCuts j selTracks st)
                = outTree st @ [\<lparr>copiedVariables = copyJet j, vectors = out\<rparr>]"
      and n: "Jet_nseltracks out = Jet_nseltracks (outVariables st)
                @ map (\<lambda>sel. real (length sel)) (nonEmpty selTracks)"
    by blast
  with nonEmpty_lengths_pos [of selTracks]
  show "\<exists>out. outTree (fillJet nCuts j selTracks st)
                     = outTree st @ [\<lparr>copiedVariables = copyJet j, vectors = out\<rparr>]
               \<and> Jet_nseltracks out = Jet_nseltracks (outVariables st)
                     @ map (\<lambda>sel. real (length sel)) (nonEmpty selTracks)
               \<and> (\<forall>sel \<in> set (nonEmpty selTracks). 1 \<le> real (length sel))"
    by blast
qed

theorem fillJet_entry_iff_nonempty_witness:
  "length ([[], [(0, 1), (1, 5)]] :: selTrack list list) = 2
   \<and> nonEmpty [[], [(0, 1), (1, 5)]] = [[(0, 1), (1, 5)]]
   \<and> (\<exists>out. outTree (fillJet 2 jetB [[], [(0, 1), (1, 5)]] (initState 2))
              = [\<lparr>copiedVariables = copyJet jetB, vectors = out\<rparr>]
          \<and> Jet_nseltracks out = [2])"
proof -
  let ?sel = "[[], [(0, 1), (1, 5)]] :: selTrack list list"
  have len: "length ?sel = 2" by simp
  have ne: "nonEmpty ?sel = [[(0, 1), (1, 5)]]" by (simp add: nonEmpty_def)
  then have ne': "nonEmpty ?sel \<noteq> []" by simp
  from fillJet_entry_iff_nonempty [OF len, of jetB "initState 2"] ne'
  obtain out
    where o: "outTree (fillJet 2 jetB ?sel (initState 2))
                = outTree (initState 2) @ [\<lparr>copiedVariables = copyJet jetB, vectors = out\<rparr>]"
      and n: "Jet_nseltracks out = Jet_nseltracks (outVariables (initState 2))
                @ map (\<lambda>sel. real (length sel)) (nonEmpty ?sel)"
    by blast
  from o have o': "outTree (fillJet 2 jetB ?sel (initState 2))
                = [\<lparr>copiedVariables = copyJet jetB, vectors = out\<rparr>]"
    by (simp add: initState_def)
  from n have "Jet_nseltracks out = [2]"
    unfolding ne by (simp add: initState_def cleared_def)
  with o' len ne show ?thesis by blast
qed

text \<open>
  Claim C1, evaluated on the code. The entry \<open>entry1\<close> has one b jet with two tracks of
  impact-parameter significance 1 and 5, in this order, and no selector is configured,
  so both tracks are accepted under the single threshold. Sorted by decreasing
  significance the selected tracks are \<open>[(1, 5), (0, 1)]\<close>: the largest significance
  is 5 and the second largest is 1. The code does not keep the sorted list and emits
  the significance of the first accepted track, 1, as \<open>Jet_Ip\<close> and that of the second
  accepted track, 5, as \<open>TCHE\<close>.
\<close>

theorem jetStep_unsorted_example:
  "jetStep None None 1 entry1 jetB (initState 1) = Inr
     \<lparr>nSelTracksB = [2], nTotTracksB = 2, nSelTracksLight = [0], nTotTracksLight = 0,
      nSelTracksC = [0], nTotTracksC = 0, nSelTracksPU = [0], nTotTracksPU = 0,
      outVariables = cleared,
      outTree = [\<lparr>copiedVariables = [20, 25, 2, 0, 0, 5],
         vectors = \<lparr>Jet_nseltracks = [2], Jet_Ip = [1], TCHE = [5], TCHP = [- (10 ^ 10)]\<rparr>\<rparr>]\<rparr>
   \<and> sorted_reverse [(0, 1), (1, 5)] = [(1, 5), (0, 1)]"
  by code_simp

section \<open>The pass over the events\<close>

lemma countTotal_out:
  "outVariables (countTotal j st) = outVariables st" "outTree (countTotal j st) = outTree st"
  by (simp_all add: countTotal_def Let_def)

lemma countSel_out:
  "outVariables (countSel j i st) = outVariables st" "outTree (countSel j i st) = outTree st"
  by (simp_all add: countSel_def Let_def)

lemma selStep_sameOutput:
  assumes "sameOutput ov ot n s" and "selStep tree j track keepTrack i s = Inr s'"
  shows "sameOutput ov ot n s'"
proof -
  obtain st sel where s: "s = (st, sel)" by (cases s)
  show ?thesis
  proof (cases "keepTrack ! i")
    case True
    with assms(2) have "s' = (countSel j i st,
        sel[i := sel ! i @ [(track, Track_IPsig tree ! track)]])"
      by (simp add: selStep_def s Let_def split: if_splits)
    with assms(1) show ?thesis by (simp add: sameOutput_def s countSel_out)
  next
    case False
    with assms show ?thesis by (simp add: selStep_def s)
  qed
qed

lemma trackStep_sameOutput:
  assumes P: "sameOutput ov ot n s"
    and r: "trackStep myTrackCutSel myTrackMVASel nCuts tree j track s = Inr s'"
  shows "sameOutput ov ot n s'"
proof -
  obtain st sel where s: "s = (st, sel)" by (cases s)
  have P1: "sameOutput ov ot n (countTotal j st, sel)"
    using P by (simp add: sameOutput_def s countTotal_out)
  show ?thesis
  proof (cases "fst (selectTrack myTrackCutSel myTrackMVASel nCuts tree track)")
    case None
    with r have "s' = (countTotal j st, sel)" by (simp add: trackStep_def s Let_def)
    with P1 show ?thesis by simp
  next
    case (Some keepTrack)
    with r have "foldE (selStep tree j track keepTrack) [0..<nCuts] (countTotal j st, sel) = Inr s'"
      by (simp add: trackStep_def s Let_def)
    then show ?thesis
      by (rule foldE_invariant [where P = "sameOutput ov ot n", OF _ P1])
        (meson selStep_sameOutput)
  qed
qed

lemma trackLoop_sameOutput:
  assumes "foldE (trackStep myTrackCutSel myTrackMVASel nCuts tree j) tracks (st, sel)
            = Inr (st1, selTracks)"
  shows "outVariables st1 = outVariables st \<and> outTree st1 = outTree st
       \<and> length selTracks = length sel"
proof -
  have "sameOutput (outVariables st) (outTree st) (length sel) (st, sel)"
    by (simp add: sameOutput_def)
  with assms have "sameOutput (outVariables st) (outTree st) (length sel) (st1, selTracks)"
    by (rule foldE_invariant) (meson trackStep_sameOutput)
  then show ?thesis by (simp add: sameOutput_def)
qed

lemma jetStep_Inr:
  assumes "jetStep myTrackCutSel myTrackMVASel nCuts tree j st = Inr st'"
  shows "\<exists>st1 selTracks.
           foldE (trackStep myTrackCutSel myTrackMVASel nCuts tree j)
             [Jet_nFirstTrack j..<Jet_nLastTrack j] (st, replicate nCuts []) = Inr (st1, selTracks)
         \<and> length selTracks = nCuts
         \<and> outVariables st1 = outVariables st \<and> outTree st1 = outTree st
         \<and> st' = fillJet nCuts j selTracks st1"
proof -
  from assms obtain st1 selTracks
    where loop: "foldE (trackStep myTrackCutSel myTrackMVASel nCuts tree j)
             [Jet_nFirstTrack j..<Jet_nLastTrack j] (st, replicate nCuts []) = Inr (st1, selTracks)"
      and fill: "st' = fillJet nCuts j selTracks st1"
    by (auto simp: jetStep_def bindE_eq_Inr)
  from trackLoop_sameOutput [OF loop] loop fill show ?thesis by simp
qed

lemma fillJet_wellFormed:
  assumes len: "length selTracks = nCuts"
    and clr: "outVariables st = cleared"
  shows "nonEmpty selTracks = [] \<longrightarrow> outTree (fillJet nCuts j selTracks st) = outTree st"
    and "nonEmpty selTracks \<noteq> [] \<longrightarrow>
          (\<exists>e. outTree (fillJet nCuts j selTracks st) = outTree st @ [e]
             \<and> length (Jet_nseltracks (vectors e)) = length (nonEmpty selTracks)
             \<and> length (Jet_Ip (vectors e)) = length (nonEmpty selTracks)
             \<and> length (TCHE (vectors e)) = length (nonEmpty selTracks)
             \<and> length (TCHP (vectors e)) = length (nonEmpty selTracks)
             \<and> 1 \<le> length (nonEmpty selTracks)
             \<and> length (nonEmpty selTracks) \<le> nCuts)"
proof -
  show "nonEmpty selTracks = [] \<longrightarrow> outTree (fillJet nCuts j selTracks st) = outTree st"
    using fillJet_entries(1) [OF len] by blast
  show "nonEmpty selTracks \<noteq> [] \<longrightarrow>
          (\<exists>e. outTree (fillJet nCuts j selTracks st) = outTree st @ [e]
             \<and> length (Jet_nseltracks (vectors e)) = length (nonEmpty selTracks)
             \<and> length (Jet_Ip (vectors e)) = length (nonEmpty selTracks)
             \<and> length (TCHE (vectors e)) = length (nonEmpty selTracks)
             \<and> length (TCHP (vectors e)) = length (nonEmpty selTracks)
             \<and> 1 \<le> length (nonEmpty selTracks)
             \<and> length (nonEmpty selTracks) \<le> nCuts)"
  proof
    assume ne: "nonEmpty selTracks \<noteq> []"
    from fillJet_entries(2) [OF len ne, of j st] obtain out
      where o: "outTree (fillJet nCuts j selTracks st)
                  = outTree st @ [\<lparr>copiedVariables = copyJet j, vectors = out\<rparr>]"
        and n: "Jet_nseltracks out = Jet_nseltracks (outVariables st)
                  @ map (\<lambda>sel. real (length sel)) (nonEmpty selTracks)"
        and l: "length (Jet_Ip out)
                  = length (Jet_Ip (outVariables st)) + length (nonEmpty selTracks)"
          "length (TCHE out) = length (TCHE (outVariables st)) + length (nonEmpty selTracks)"
          "length (TCHP out) = length (TCHP (outVariables st)) + length (nonEmpty selTracks)"
      by blast
    let ?e = "\<lparr>copiedVariables = copyJet j, vectors = out\<rparr>"
    have "length (Jet_nseltracks (vectors ?e)) = length (nonEmpty selTracks)"
      using n clr by (simp add: cleared_def)
    moreover have "length (Jet_Ip (vectors ?e)) = length (nonEmpty selTracks)"
      "length (TCHE (vectors ?e)) = length (nonEmpty selTracks)"
      "length (TCHP (vectors ?e)) = length (nonEmpty selTracks)"
      using l clr by (simp_all add: cleared_def)
    moreover have "1 \<le> length (nonEmpty selTracks)" "length (nonEmpty selTracks) \<le> nCuts"
      using nonEmpty_bounds(1) [of selTracks] nonEmpty_bounds(2) [OF ne] len by simp_all
    ultimately show "\<exists>e. outTree (fillJet nCuts j selTracks st) = outTree st @ [e]
             \<and> length (Jet_nseltracks (vectors e)) = length (nonEmpty selTracks)
             \<and> length (Jet_Ip (vectors e)) = length (nonEmpty selTracks)
             \<and> length (TCHE (vectors e)) = length (nonEmpty selTracks)
             \<and> length (TCHP (vectors e)) = length (nonEmpty selTracks)
             \<and> 1 \<le> length (nonEmpty selTracks)
             \<and> length (nonEmpty selTracks) \<le> nCuts"
      using o by blast
  qed
qed

lemma fillJet_passInvariant:
  assumes len: "length selTracks = nCuts"
    and inv: "passInvariant nCuts st"
  shows "passInvariant nCuts (fillJet nCuts j selTracks st)"
proof -
  have clr: "outVariables st = cleared" using inv by (simp add: passInvariant_def)
  note w = fillJet_wellFormed [OF len clr, of j]
  show ?thesis
  proof (cases "nonEmpty selTracks = []")
    case True
    with w(1) inv show ?thesis by (simp add: passInvariant_def fillJet_cleared)
  next
    case False
    with w(2) obtain e
      where "outTree (fillJet nCuts j selTracks st) = outTree st @ [e]"
        and "wellFormedEntry nCuts e"
      by (auto simp: wellFormedEntry_def)
    with inv show ?thesis by (simp add: passInvariant_def fillJet_cleared)
  qed
qed

lemma jetStep_passInvariant:
  assumes inv: "passInvariant nCuts st"
    and ret: "jetStep myTrackCutSel myTrackMVASel nCuts tree j st = Inr st'"
  shows "passInvariant nCuts st'"
proof -
  from jetStep_Inr [OF ret] obtain st1 selTracks
    where len: "length selTracks = nCuts"
      and same: "outVariables st1 = outVariables st" "outTree st1 = outTree st"
      and fill: "st' = fillJet nCuts j selTracks st1"
    by blast
  have "passInvariant nCuts st1" using inv same by (simp add: passInvariant_def)
  from fillJet_passInvariant [OF len this] fill show ?thesis by simp
qed

lemma eventStep_passInvariant:
  assumes inv: "passInvariant nCuts st"
    and ret: "eventStep myTrackCutSel myTrackMVASel nCuts tree st = Inr st'"
  shows "passInvariant nCuts st'"
  using ret [unfolded eventStep_def] inv
  by (rule foldE_invariant) (meson jetStep_passInvariant)

lemma eventLoop_passInvariant:
  assumes inv: "passInvariant nCuts st"
    and ret: "eventLoop myTrackCutSel myTrackMVASel nCuts entries st = Inr st'"
  shows "passInvariant nCuts st'"
  using ret [unfolded eventLoop_def] inv
  by (rule foldE_invariant) (meson eventStep_passInvariant)

lemma initState_passInvariant: "passInvariant nCuts (initState nCuts)"
  by (simp add: passInvariant_def initState_def)

text \<open>
  Claim C10. The processing of a jet ends with the four vectors cleared, whatever they
  held before, so nothing is carried over to the next jet. A jet that starts with
  cleared vectors fills no entry when all its selected-track lists are empty, and else
  one entry in which the four vectors have the same length: the number of thresholds
  whose selected-track list for that jet is not empty, between 1 and \<open>nCuts\<close>. Whenever
  the pass over all events returns, the vectors are cleared and every filled entry has
  four vectors of one length between 1 and \<open>nCuts\<close>.
\<close>

theorem filled_vectors_equal_lengths:
  "(\<forall>selTracks st. outVariables (fillJet nCuts j selTracks st) = cleared)
   \<and> (\<forall>st st'. jetStep myTrackCutSel myTrackMVASel nCuts tree j st = Inr st' \<longrightarrow>
         outVariables st' = cleared)
   \<and> (\<forall>selTracks st. length selTracks = nCuts \<longrightarrow> outVariables st = cleared \<longrightarrow>
         (nonEmpty selTracks = [] \<longrightarrow> outTree (fillJet nCuts j selTracks st) = outTree st)
       \<and> (nonEmpty selTracks \<noteq> [] \<longrightarrow>
            (\<exists>e. outTree (fillJet nCuts j selTracks st) = outTree st @ [e]
               \<and> length (Jet_nseltracks (vectors e)) = length (nonEmpty selTracks)
               \<and> length (Jet_Ip (vectors e)) = length (nonEmpty selTracks)
               \<and> length (TCHE (vectors e)) = length (nonEmpty selTracks)
               \<and> length (TCHP (vectors e)) = length (nonEmpty selTracks)
               \<and> 1 \<le> length (nonEmpty selTracks)
               \<and> length (nonEmpty selTracks) \<le> nCuts)))
   \<and> (\<forall>st. eventLoop myTrackCutSel myTrackMVASel nCuts entries (initState nCuts) = Inr st \<longrightarrow>
         outVariables st = cleared \<and> (\<forall>e \<in> set (outTree st). wellFormedEntry nCuts e))"
proof (intro conjI allI impI)
  fix selTracks st
  show "outVariables (fillJet nCuts j selTracks st) = cleared" by (rule fillJet_cleared)
next
  fix st st'
  assume "jetStep myTrackCutSel myTrackMVASel nCuts tree j st = Inr st'"
  from jetStep_Inr [OF this] show "outVariables st' = cleared"
    by (auto simp: fillJet_cleared)
next
  fix selTracks :: "selTrack list list" and st :: state
  assume len: "length selTracks = nCuts" and clr: "outVariables st = cleared"
    and "nonEmpty selTracks = []"
  with fillJet_wellFormed(1) [OF len clr, of j]
  show "outTree (fillJet nCuts j selTracks st) = outTree st" by blast
next
  fix selTracks :: "selTrack list list" and st :: state
  assume len: "length selTracks = nCuts" and clr: "outVariables st = cleared"
    and "nonEmpty selTracks \<noteq> []"
  with fillJet_wellFormed(2) [OF len clr, of j]
  show "\<exists>e. outTree (fillJet nCuts j selTracks st) = outTree st @ [e]
               \<and> length (Jet_nseltracks (vectors e)) = length (nonEmpty selTracks)
               \<and> length (Jet_Ip (vectors e)) = length (nonEmpty selTracks)
               \<and> length (TCHE (vectors e)) = length (nonEmpty selTracks)
               \<and> length (TCHP (vectors e)) = length (nonEmpty selTracks)
               \<and> 1 \<le> length (nonEmpty selTracks)
               \<and> length (nonEmpty selTracks) \<le> nCuts"
    by blast
next
  fix st
  assume "eventLoop myTrackCutSel myTrackMVASel nCuts entries (initState nCuts) = Inr st"
  from eventLoop_passInvariant [OF initState_passInvariant this]
  show "outVariables st = cleared" and "\<forall>e \<in> set (outTree st). wellFormedEntry nCuts e"
    by (simp_all add: passInvariant_def)
qed

theorem filled_vectors_equal_lengths_witness:
  "(\<exists>st e. eventLoop None (Some mvaDecreasing) 2 [entry1] (initState 2) = Inr st
        \<and> outVariables st = cleared \<and> outTree st = [e] \<and> wellFormedEntry 2 e)
   \<and> (\<exists>st'. jetStep None (Some mvaDecreasing) 2 entry1 jetB (initState 2) = Inr st'
        \<and> outVariables st' = cleared)
   \<and> (\<exists>e. outTree (fillJet 2 jetB [[], [(0, 1), (1, 5)]] (initState 2)) = [e]
        \<and> length (Jet_nseltracks (vectors e)) = 1
        \<and> length (Jet_Ip (vectors e)) = 1
        \<and> length (TCHE (vectors e)) = 1
        \<and> length (TCHP (vectors e)) = 1)"
proof -
  let ?sel = "[[], [(0, 1), (1, 5)]] :: selTrack list list"
  let ?E = "\<lparr>copiedVariables = [20, 25, 2, 0, 0, 5],
         vectors = \<lparr>Jet_nseltracks = [2], Jet_Ip = [1], TCHE = [- (10 ^ 10)],
                    TCHP = [- (10 ^ 10)]\<rparr>\<rparr>"
  let ?S = "\<lparr>nSelTracksB = [0, 2], nTotTracksB = 2, nSelTracksLight = [0, 0],
      nTotTracksLight = 0, nSelTracksC = [0, 0], nTotTracksC = 0,
      nSelTracksPU = [0, 0], nTotTracksPU = 0,
      outVariables = cleared, outTree = [?E]\<rparr>"
  note T = filled_vectors_equal_lengths
    [of 2 jetB None "Some mvaDecreasing" entry1 "[entry1]"]
  have ret1: "jetStep None (Some mvaDecreasing) 2 entry1 jetB (initState 2) = Inr ?S"
    by code_simp
  have ret2: "eventLoop None (Some mvaDecreasing) 2 [entry1] (initState 2) = Inr ?S"
    by code_simp
  from T have c2: "\<forall>st st'. jetStep None (Some mvaDecreasing) 2 entry1 jetB st = Inr st' \<longrightarrow>
         outVariables st' = cleared"
    by (elim conjE)
  from T have c4: "\<forall>st. eventLoop None (Some mvaDecreasing) 2 [entry1] (initState 2) = Inr st \<longrightarrow>
         outVariables st = cleared \<and> (\<forall>e \<in> set (outTree st). wellFormedEntry 2 e)"
    by (elim conjE)
  from T have c3: "\<forall>selTracks st. length selTracks = 2 \<longrightarrow> outVariables st = cleared \<longrightarrow>
         (nonEmpty selTracks = [] \<longrightarrow> outTree (fillJet 2 jetB selTracks st) = outTree st)
       \<and> (nonEmpty selTracks \<noteq> [] \<longrightarrow>
            (\<exists>e. outTree (fillJet 2 jetB selTracks st) = outTree st @ [e]
               \<and> length (Jet_nseltracks (vectors e)) = length (nonEmpty selTracks)
               \<and> length (Jet_Ip (vectors e)) = length (nonEmpty selTracks)
               \<and> length (TCHE (vectors e)) = length (nonEmpty selTracks)
               \<and> length (TCHP (vectors e)) = length (nonEmpty selTracks)
               \<and> 1 \<le> length (nonEmpty selTracks)
               \<and> length (nonEmpty selTracks) \<le> 2))"
    by (elim conjE)
  from c4 [rule_format, OF ret2]
  have a: "outVariables ?S = cleared" "\<forall>e \<in> set (outTree ?S). wellFormedEntry 2 e"
    by blast+
  from a(2) have wf: "wellFormedEntry 2 ?E" by simp
  have run: "\<exists>st e. eventLoop None (Some mvaDecreasing) 2 [entry1] (initState 2) = Inr st
        \<and> outVariables st = cleared \<and> outTree st = [e] \<and> wellFormedEntry 2 e"
    using ret2 a(1) wf by (intro exI [of _ ?S] exI [of _ ?E]) simp
  from c2 [rule_format, OF ret1] ret1
  have jet: "\<exists>st'. jetStep None (Some mvaDecreasing) 2 entry1 jetB (initState 2) = Inr st'
        \<and> outVariables st' = cleared"
    by blast
  have len: "length ?sel = 2" by simp
  have clr: "outVariables (initState 2) = cleared" by (simp add: initState_def)
  have ne: "nonEmpty ?sel = [[(0, 1), (1, 5)]]" by (simp add: nonEmpty_def)
  then have ne': "nonEmpty ?sel \<noteq> []" by simp
  from c3 [rule_format, OF len clr] ne' obtain e
    where e: "outTree (fillJet 2 jetB ?sel (initState 2)) = outTree (initState 2) @ [e]"
      and l: "length (Jet_nseltracks (vectors e)) = length (nonEmpty ?sel)"
        "length (Jet_Ip (vectors e)) = length (nonEmpty ?sel)"
        "length (TCHE (vectors e)) = length (nonEmpty ?sel)"
        "length (TCHP (vectors e)) = length (nonEmpty ?sel)"
    by blast
  have fill: "\<exists>e. outTree (fillJet 2 jetB ?sel (initState 2)) = [e]
        \<and> length (Jet_nseltracks (vectors e)) = 1
        \<and> length (Jet_Ip (vectors e)) = 1
        \<and> length (TCHE (vectors e)) = 1
        \<and> length (TCHP (vectors e)) = 1"
    using e l unfolding ne by (intro exI [of _ e]) (simp add: initState_def)
  from run jet fill show ?thesis by (intro conjI)
qed

section \<open>The efficiency report\<close>

lemma reportCut_zero:
  "someTotalZero c \<Longrightarrow> reportCut c i printed = Inl ZeroDivisionError"
  by (auto simp: someTotalZero_def reportCut_def efficiency_def)

lemma reportCut_nonzero:
  "\<not> someTotalZero c \<Longrightarrow> \<exists>row. reportCut c i printed = Inr (printed @ [row])"
  by (simp add: someTotalZero_def reportCut_def efficiency_def)

lemma foldE_reportCut_nonzero:
  assumes "\<not> someTotalZero c"
  shows "\<exists>printed'. foldE (reportCut c) is printed = Inr printed'
           \<and> length printed' = length printed + length is"
proof (induction "is" arbitrary: printed)
  case Nil
  show ?case by simp
next
  case (Cons i rest)
  from reportCut_nonzero [OF assms, of i printed] obtain row
    where r: "reportCut c i printed = Inr (printed @ [row])" by blast
  from Cons.IH [of "printed @ [row]"] r show ?case by auto
qed

lemma report_zero:
  assumes "0 < nCuts" and "someTotalZero c"
  shows "report nCuts c = Inl ZeroDivisionError"
proof -
  have "[0..<nCuts] = 0 # [1..<nCuts]" using assms(1) by (simp add: upt_conv_Cons)
  then show ?thesis using reportCut_zero [OF assms(2)] by (simp add: report_def)
qed

lemma report_nonzero:
  assumes "\<not> someTotalZero c"
  shows "\<exists>printed. report nCuts c = Inr printed \<and> length printed = nCuts"
  using foldE_reportCut_nonzero [OF assms, of "[0..<nCuts]" "[]"] by (simp add: report_def)

lemma report_no_cut: "report 0 c = Inr []"
  by (simp add: report_def)

lemma createJetTreeTC_runPass:
  assumes "\<forall>m. trackMVA = Some m \<longrightarrow> path_isfile m"
  shows "createJetTreeTC entries trackCut trackMVA =
         runPass trackCut (map_option selector trackMVA)
           (nCutsOf (map_option selector trackMVA)) entries"
  using assms by (cases trackMVA) (simp_all add: createJetTreeTC_def nCutsOf_def)

text \<open>
  When the pass returns, the report raises exactly when there is a threshold and some
  category has no track; otherwise createJetTreeTC returns the filled entries.
\<close>

lemma createJetTreeTC_report:
  assumes isfile: "\<forall>m. trackMVA = Some m \<longrightarrow> path_isfile m"
    and n: "nCuts = nCutsOf (map_option selector trackMVA)"
    and pass: "eventLoop trackCut (map_option selector trackMVA) nCuts entries (initState nCuts)
                 = Inr st"
  shows "(0 < nCuts \<and> someTotalZero st \<longrightarrow>
            createJetTreeTC entries trackCut trackMVA = Inl ZeroDivisionError)
       \<and> (nCuts = 0 \<or> \<not> someTotalZero st \<longrightarrow>
            (\<exists>printed. createJetTreeTC entries trackCut trackMVA = Inr (outTree st, printed)
               \<and> length printed = nCuts))"
proof -
  have run: "createJetTreeTC entries trackCut trackMVA =
      bindE (report nCuts st) (\<lambda>printed. Inr (outTree st, printed))"
    using pass by (simp add: createJetTreeTC_runPass [OF isfile] n [symmetric] runPass_def)
  have a: "createJetTreeTC entries trackCut trackMVA = Inl ZeroDivisionError"
    if "0 < nCuts" "someTotalZero st"
    using report_zero [OF that] by (simp add: run)
  have b: "\<exists>printed. createJetTreeTC entries trackCut trackMVA = Inr (outTree st, printed)
               \<and> length printed = nCuts" if "nCuts = 0 \<or> \<not> someTotalZero st"
  proof (cases "nCuts = 0")
    case True
    then show ?thesis using report_no_cut [of st] by (simp add: run)
  next
    case False
    with that have "\<not> someTotalZero st" by simp
    from report_nonzero [OF this, of nCuts] show ?thesis by (auto simp: run)
  qed
  from a b show ?thesis by blast
qed

text \<open>
  Claim C4, evaluated on the code. The entry \<open>entry1\<close> has tracks in a b jet only. The
  pass over it returns, with two b-jet tracks and no track in the other categories.
  The report then divides by the number of c-jet tracks, which is zero, and
  createJetTreeTC ends with ZeroDivisionError before \<open>outTree.Write()\<close>, instead of
  reporting an undefined value and completing.
\<close>

theorem createJetTreeTC_zero_total_example:
  "eventLoop None None 1 [entry1] (initState 1) = Inr
     \<lparr>nSelTracksB = [2], nTotTracksB = 2, nSelTracksLight = [0], nTotTracksLight = 0,
      nSelTracksC = [0], nTotTracksC = 0, nSelTracksPU = [0], nTotTracksPU = 0,
      outVariables = cleared,
      outTree = [\<lparr>copiedVariables = [20, 25, 2, 0, 0, 5],
         vectors = \<lparr>Jet_nseltracks = [2], Jet_Ip = [1], TCHE = [5], TCHP = [- (10 ^ 10)]\<rparr>\<rparr>]\<rparr>
   \<and> createJetTreeTC [entry1] None None = Inl ZeroDivisionError"
  by code_simp

text \<open>With a track in every category the report is printed and the entries are written.\<close>

lemma createJetTreeTC_all_categories_example:
  "createJetTreeTC [entry4] None None = Inr
     ([\<lparr>copiedVariables = [20, 25, 2, 0, 0, 5],
         vectors = \<lparr>Jet_nseltracks = [2], Jet_Ip = [1], TCHE = [5], TCHP = [- (10 ^ 10)]\<rparr>\<rparr>,
       \<lparr>copiedVariables = [30, 35, 1, 1, 0, - 4],
         vectors = \<lparr>Jet_nseltracks = [1], Jet_Ip = [2], TCHE = [- (10 ^ 10)],
                    TCHP = [- (10 ^ 10)]\<rparr>\<rparr>,
       \<lparr>copiedVariables = [40, 45, 1, 1, 1, 21],
         vectors = \<lparr>Jet_nseltracks = [1], Jet_Ip = [3], TCHE = [- (10 ^ 10)],
                    TCHP = [- (10 ^ 10)]\<rparr>\<rparr>,
       \<lparr>copiedVariables = [5, 22, 1, 0, 1, 5],
         vectors = \<lparr>Jet_nseltracks = [1], Jet_Ip = [4], TCHE = [- (10 ^ 10)],
                    TCHP = [- (10 ^ 10)]\<rparr>\<rparr>],
      [[100, 100, 100, 100]])"
  by code_simp

end
